theory Spec2Isabelle
  imports Complex_Main "HOL-Library.Sublist" "HOL-Library.Log_Nat"
begin

text \<open>
  A model of the data pipeline of the notebooks. From the full-keypoint notebook
  (\<^verbatim>\<open>src/unnamed/part_000\<close>, the same code as \<^verbatim>\<open>Utilities/Stats\<close>): the extractors
  \<^verbatim>\<open>get_face\<close>, \<^verbatim>\<open>get_hands\<close>, \<^verbatim>\<open>get_body\<close> and the padder \<^verbatim>\<open>padding_seq\<close>.
  From the single-keypoint notebook (\<^verbatim>\<open>LSTM_2D_to_3D-OneSingle_kp\<close>): its padder
  \<^verbatim>\<open>padding_seq(dataset, labels)\<close>, here \<open>padding_seq_kp\<close>, the normalizer
  \<^verbatim>\<open>normalize\<close>, here \<open>normalize_tensor\<close>, and the cell that splits the dataset, here
  \<open>split_dataset\<close>.

  Listing a directory, opening a file and parsing JSON are outside the model: an extractor
  takes the parsed frames. A Python function that raises returns \<open>Inl\<close> of the exception;
  a function that changes its argument in place returns the changed value.
\<close>

section \<open>Python values\<close>

text \<open>
  A Python float is modelled without rounding: a finite value is a real number, and the
  three special values of IEEE arithmetic are constructors of their own. \<open>NaN\<close> is the
  missing-value marker \<^verbatim>\<open>np.nan\<close> of the notebooks. Signed zeros are not distinguished.
\<close>

datatype pyfloat = Fin real | PInf | NInf | NaN

type_synonym vec = "pyfloat list"

text \<open>
  The exceptions the modelled code can raise. \<open>KeyError k\<close> carries the missing key,
  \<open>UnboundLocalError v\<close> the name of the local variable read before assignment.
\<close>

datatype error = IndexError string | KeyError string | UnboundLocalError string | ValueError string

text \<open>\<^verbatim>\<open>[0. for i in range(n)]\<close>\<close>

definition zeros :: "nat \<Rightarrow> vec" where
  "zeros n = replicate n (Fin 0)"

text \<open>
  The extended slice \<^verbatim>\<open>xs[k::s]\<close> for \<open>s > 0\<close>: the elements at the indices
  \<open>k, k+s, k+2s, ...\<close> below \<open>len(xs)\<close>, of which there are \<open>ceil((len(xs)-k)/s)\<close>.
\<close>

definition slice_step :: "nat \<Rightarrow> nat \<Rightarrow> 'a list \<Rightarrow> 'a list" where
  "slice_step k s xs = map (\<lambda>j. xs ! (k + j * s)) [0 ..< (length xs - k + s - 1) div s]"

text \<open>
  The slot sequences are 2-tuples of lists, \<^verbatim>\<open>([], [])\<close>. \<^verbatim>\<open>seq[i].append(v)\<close>
  raises \<^verbatim>\<open>IndexError: tuple index out of range\<close> for \<open>i \<ge> 2\<close>.
\<close>

type_synonym 'a slots = "'a list \<times> 'a list"

definition append_slot :: "nat \<Rightarrow> 'a \<Rightarrow> 'a slots \<Rightarrow> error + 'a slots" where
  "append_slot i v seqs =
     (if i = 0 then Inr (fst seqs @ [v], snd seqs)
      else if i = 1 then Inr (fst seqs, snd seqs @ [v])
      else Inl (IndexError ''tuple index out of range''))"

text \<open>A \<^verbatim>\<open>for\<close> loop whose body may raise: the first exception ends the loop.\<close>

fun for_each :: "('a \<Rightarrow> 's \<Rightarrow> error + 's) \<Rightarrow> 'a list \<Rightarrow> 's \<Rightarrow> error + 's" where
  "for_each f [] s = Inr s"
| "for_each f (x # xs) s = (case f x s of Inl e \<Rightarrow> Inl e | Inr s' \<Rightarrow> for_each f xs s')"

section \<open>Face and body extractors\<close>

text \<open>
  \<^verbatim>\<open>two_coord = [l[item] for item in range(len(x)) for l in [x,y]]\<close>:
  \<open>x[0], y[0], x[1], y[1], ...\<close>; reading \<open>y[item]\<close> raises when \<open>y\<close> is shorter than \<open>x\<close>.
\<close>

definition two_coord :: "'a list \<Rightarrow> 'a list \<Rightarrow> error + 'a list" where
  "two_coord x y =
     (if length y < length x then Inl (IndexError ''list index out of range'')
      else Inr (concat (map (\<lambda>item. [x ! item, y ! item]) [0 ..< length x])))"

text \<open>
  The part of \<^verbatim>\<open>get_face\<close> and \<^verbatim>\<open>get_body\<close> that works on one flat landmark list,
  \<open>n\<close> values per joint (3 for \<^verbatim>\<open>face70.landmarks\<close>, 4 for \<^verbatim>\<open>joints26\<close>):
  \<^verbatim>\<open>x = lm[::n]; y = lm[1::n]; two_coord = ...; third_coord = lm[2::n]\<close>.
\<close>

definition split_coords :: "nat \<Rightarrow> 'a list \<Rightarrow> error + ('a list \<times> 'a list)" where
  "split_coords n lm =
     (let x = slice_step 0 n lm; y = slice_step 1 n lm in
      case two_coord x y of
        Inl e \<Rightarrow> Inl e
      | Inr tc \<Rightarrow> Inr (tc, slice_step 2 n lm))"

text \<open>
  A person entry of a face frame, \<^verbatim>\<open>{id, face70: {landmarks}}\<close>, and of a body frame,
  \<^verbatim>\<open>{id, joints26}\<close>. A frame is the list under \<^verbatim>\<open>people\<close> (face, hands) or
  \<^verbatim>\<open>bodies\<close> (body), in document order.
\<close>

record face_person =
  face_id :: int
  face70_landmarks :: vec

record body_person =
  body_id :: int
  joints26 :: vec

type_synonym seq_state = "vec slots \<times> vec slots \<times> nat"

text \<open>
  The body of \<^verbatim>\<open>for person in ...\<close>: the state is the two slot tuples and the
  counter \<open>i\<close>. The landmark list is split before either \<^verbatim>\<open>append\<close>.
\<close>

definition store_person :: "nat \<Rightarrow> int \<Rightarrow> vec \<Rightarrow> seq_state \<Rightarrow> error + seq_state" where
  "store_person n ident lm st =
     (case st of (seq2, seq3, i) \<Rightarrow>
        if ident \<noteq> - 1 then
          (case split_coords n lm of
             Inl e \<Rightarrow> Inl e
           | Inr (tc, third) \<Rightarrow>
               (case append_slot i tc seq2 of
                  Inl e \<Rightarrow> Inl e
                | Inr seq2' \<Rightarrow>
                    (case append_slot i third seq3 of
                       Inl e \<Rightarrow> Inl e
                     | Inr seq3' \<Rightarrow> Inr (seq2', seq3', i + 1))))
        else Inr st)"

text \<open>
  \<^verbatim>\<open>if i<2: seq2[i].append(zeros(w2)); seq3[i].append(zeros(w3))\<close> after the
  loop over the persons of one frame: one slot, the one numbered \<open>i\<close>, is written.
\<close>

definition pad_frame :: "'a \<Rightarrow> 'a \<Rightarrow> 'a slots \<times> 'a slots \<times> nat \<Rightarrow> error + ('a slots \<times> 'a slots)" where
  "pad_frame z2 z3 st =
     (case st of (seq2, seq3, i) \<Rightarrow>
        if i < 2 then
          (case append_slot i z2 seq2 of
             Inl e \<Rightarrow> Inl e
           | Inr seq2' \<Rightarrow>
               (case append_slot i z3 seq3 of
                  Inl e \<Rightarrow> Inl e
                | Inr seq3' \<Rightarrow> Inr (seq2', seq3')))
        else Inr (seq2, seq3))"

definition face_frame :: "face_person list \<Rightarrow> vec slots \<times> vec slots \<Rightarrow> error + (vec slots \<times> vec slots)" where
  "face_frame people seqs =
     (case for_each (\<lambda>p. store_person 3 (face_id p) (face70_landmarks p)) people (fst seqs, snd seqs, 0) of
        Inl e \<Rightarrow> Inl e
      | Inr st \<Rightarrow> pad_frame (zeros 140) (zeros 70) st)"

definition body_frame :: "body_person list \<Rightarrow> vec slots \<times> vec slots \<Rightarrow> error + (vec slots \<times> vec slots)" where
  "body_frame bodies seqs =
     (case for_each (\<lambda>p. store_person 4 (body_id p) (joints26 p)) bodies (fst seqs, snd seqs, 0) of
        Inl e \<Rightarrow> Inl e
      | Inr st \<Rightarrow> pad_frame (zeros 52) (zeros 26) st)"

text \<open>
  \<open>files\<close> is the parsed content of the regular files of the modality's directory in
  sorted order. \<^verbatim>\<open>get_face\<close> reads \<^verbatim>\<open>files[1:]\<close>, \<^verbatim>\<open>get_body\<close> reads
  \<^verbatim>\<open>files[:-1]\<close>. The result is \<^verbatim>\<open>(seq_2D, seq_3D)\<close>.
\<close>

definition get_face :: "face_person list list \<Rightarrow> error + (vec slots \<times> vec slots)" where
  "get_face files = for_each face_frame (drop 1 files) (([], []), ([], []))"

definition get_body :: "body_person list list \<Rightarrow> error + (vec slots \<times> vec slots)" where
  "get_body files = for_each body_frame (butlast files) (([], []), ([], []))"

section \<open>Hands extractor\<close>

text \<open>
  A person entry of a hands frame, \<^verbatim>\<open>{id, left_hand?: {landmarks}, right_hand?: {landmarks}}\<close>:
  \<open>None\<close> is an absent sub-record. \<^verbatim>\<open>person[hand]['landmarks']\<close> raises
  \<^verbatim>\<open>KeyError(hand)\<close> when the sub-record is absent.
\<close>

record hand_person =
  hand_id :: int
  left_hand :: "vec option"
  right_hand :: "vec option"

definition landmarks :: "string \<Rightarrow> hand_person \<Rightarrow> error + vec" where
  "landmarks hand person =
     (case (if hand = ''left_hand'' then left_hand person else right_hand person) of
        None \<Rightarrow> Inl (KeyError hand)
      | Some lm \<Rightarrow> Inr lm)"

text \<open>
  \<^verbatim>\<open>[person[hand]['landmarks'][c] for c in range(len(person[rng]['landmarks'])) if (c+1)%3!=0]\<close>.
  The iterable is evaluated first, so an absent \<open>rng\<close> raises before \<open>hand\<close> is read;
  \<open>person[hand]\<close> is read once per index that passes the filter, and an index beyond
  the list raises \<^verbatim>\<open>IndexError\<close>.
\<close>

definition xy_values :: "string \<Rightarrow> string \<Rightarrow> hand_person \<Rightarrow> error + vec" where
  "xy_values hand rng person =
     (case landmarks rng person of
        Inl e \<Rightarrow> Inl e
      | Inr r \<Rightarrow>
          (let cs = filter (\<lambda>c. (c + 1) mod 3 \<noteq> 0) [0 ..< length r] in
           if cs = [] then Inr []
           else
             (case landmarks hand person of
                Inl e \<Rightarrow> Inl e
              | Inr l \<Rightarrow>
                  if \<exists>c \<in> set cs. length l \<le> c then Inl (IndexError ''list index out of range'')
                  else Inr (map (\<lambda>c. l ! c) cs))))"

text \<open>\<^verbatim>\<open>person[hand]['landmarks'][2::3]\<close>\<close>

definition z_values :: "string \<Rightarrow> hand_person \<Rightarrow> error + vec" where
  "z_values hand person =
     (case landmarks hand person of
        Inl e \<Rightarrow> Inl e
      | Inr l \<Rightarrow> Inr (slice_step 2 3 l))"

text \<open>
  \<^verbatim>\<open>str(e)\<close>: the message of the exception; for a \<^verbatim>\<open>KeyError\<close> the \<^verbatim>\<open>repr\<close>
  of the key, in single quotes.
\<close>

fun str :: "error \<Rightarrow> string" where
  "str (KeyError k) = CHR 0x27 # k @ [CHR 0x27]"
| "str (IndexError m) = m"
| "str (ValueError m) = m"
| "str (UnboundLocalError v) =
     ''local variable '' @ CHR 0x27 # v @ CHR 0x27 # '' referenced before assignment''"

text \<open>
  The local variables \<^verbatim>\<open>hands\<close> and \<^verbatim>\<open>hands_3d\<close> hold a list of two lists
  after the \<^verbatim>\<open>try\<close> block and a flat list after a recovery branch. They are locals
  of \<^verbatim>\<open>get_hands\<close>, so they keep their value from one person entry and one frame
  to the next; \<open>None\<close> is a variable not assigned yet.
\<close>

datatype hval = Flat vec | Nested "vec list"

record hands_state =
  hand_2D_seq :: "hval slots"
  hand_3D_seq :: "hval slots"
  hands :: "hval option"
  hands_3d :: "hval option"

text \<open>
  The \<^verbatim>\<open>try\<close> block. When a statement raises, the assignments and appends made
  before it stay: the result is the exception with the state reached.
\<close>

definition try_block :: "hand_person \<Rightarrow> nat \<Rightarrow> hands_state \<Rightarrow> (error \<times> hands_state) + hands_state" where
  "try_block person i st =
     (case xy_values ''left_hand'' ''right_hand'' person of
        Inl e \<Rightarrow> Inl (e, st)
      | Inr hl \<Rightarrow>
     (case xy_values ''right_hand'' ''right_hand'' person of
        Inl e \<Rightarrow> Inl (e, st)
      | Inr hr \<Rightarrow>
     (let st1 = st\<lparr>hands := Some (Nested [hl, hr])\<rparr> in
      case append_slot i (Flat (hl @ hr)) (hand_2D_seq st1) of
        Inl e \<Rightarrow> Inl (e, st1)
      | Inr seq2 \<Rightarrow>
     (let st2 = st1\<lparr>hand_2D_seq := seq2\<rparr> in
      case z_values ''left_hand'' person of
        Inl e \<Rightarrow> Inl (e, st2)
      | Inr zl \<Rightarrow>
     (case z_values ''right_hand'' person of
        Inl e \<Rightarrow> Inl (e, st2)
      | Inr zr \<Rightarrow>
     (let st3 = st2\<lparr>hands_3d := Some (Nested [zl, zr])\<rparr> in
      case append_slot i (Flat (zl @ zr)) (hand_3D_seq st3) of
        Inl e \<Rightarrow> Inl (e, st3)
      | Inr seq3 \<Rightarrow> Inr (st3\<lparr>hand_3D_seq := seq3\<rparr>)))))))"

text \<open>
  The two recovery branches of \<^verbatim>\<open>except Exception as e\<close>, chosen by
  \<^verbatim>\<open>'left_hand' in str(e)\<close> and \<^verbatim>\<open>'right_hand' in str(e)\<close>. The first has an
  inner \<^verbatim>\<open>try\<close> with a bare \<^verbatim>\<open>except\<close>; an exception of the second is not
  caught. With neither substring in the message nothing is assigned.
\<close>

definition recover :: "error \<Rightarrow> hand_person \<Rightarrow> hands_state \<Rightarrow> error + hands_state" where
  "recover e person st =
     (if sublist ''left_hand'' (str e) then
        (case xy_values ''right_hand'' ''right_hand'' person of
           Inl _ \<Rightarrow> Inr (st\<lparr>hands := Some (Flat (zeros 84)), hands_3d := Some (Flat (zeros 42))\<rparr>)
         | Inr hr \<Rightarrow>
             (case z_values ''right_hand'' person of
                Inl _ \<Rightarrow> Inr (st\<lparr>hands := Some (Flat (zeros 84)), hands_3d := Some (Flat (zeros 42))\<rparr>)
              | Inr zr \<Rightarrow>
                  Inr (st\<lparr>hands := Some (Flat (zeros 42 @ hr)), hands_3d := Some (Flat (zeros 21 @ zr))\<rparr>)))
      else if sublist ''right_hand'' (str e) then
        (case xy_values ''left_hand'' ''left_hand'' person of
           Inl e' \<Rightarrow> Inl e'
         | Inr hl \<Rightarrow>
             (case z_values ''left_hand'' person of
                Inl e' \<Rightarrow> Inl e'
              | Inr zl \<Rightarrow>
                  Inr (st\<lparr>hands := Some (Flat (hl @ zeros 42)), hands_3d := Some (Flat (zl @ zeros 21))\<rparr>)))
      else Inr st)"

text \<open>
  \<^verbatim>\<open>hand_2D_seq[i].append(hands); hand_3D_seq[i].append(hands_3d)\<close> at the end of
  the handler: the tuple is indexed before the variable is read.
\<close>

definition append_recovered :: "nat \<Rightarrow> hands_state \<Rightarrow> error + hands_state" where
  "append_recovered i st =
     (if 2 \<le> i then Inl (IndexError ''tuple index out of range'')
      else
        (case hands st of
           None \<Rightarrow> Inl (UnboundLocalError ''hands'')
         | Some h \<Rightarrow>
             (case append_slot i h (hand_2D_seq st) of
                Inl e \<Rightarrow> Inl e
              | Inr seq2 \<Rightarrow>
                  (case hands_3d st of
                     None \<Rightarrow> Inl (UnboundLocalError ''hands_3d'')
                   | Some h3 \<Rightarrow>
                       (case append_slot i h3 (hand_3D_seq st) of
                          Inl e \<Rightarrow> Inl e
                        | Inr seq3 \<Rightarrow> Inr (st\<lparr>hand_2D_seq := seq2, hand_3D_seq := seq3\<rparr>))))))"

definition hands_person :: "hand_person \<Rightarrow> hands_state \<times> nat \<Rightarrow> error + (hands_state \<times> nat)" where
  "hands_person person sti =
     (case sti of (st, i) \<Rightarrow>
        if hand_id person \<noteq> - 1 then
          (case try_block person i st of
             Inr st1 \<Rightarrow> Inr (st1, i + 1)
           | Inl (e, st1) \<Rightarrow>
               (case recover e person st1 of
                  Inl e' \<Rightarrow> Inl e'
                | Inr st2 \<Rightarrow>
                    (case append_recovered i st2 of
                       Inl e' \<Rightarrow> Inl e'
                     | Inr st3 \<Rightarrow> Inr (st3, i + 1))))
        else Inr sti)"

definition hands_frame :: "hand_person list \<Rightarrow> hands_state \<Rightarrow> error + hands_state" where
  "hands_frame people st =
     (case for_each hands_person people (st, 0) of
        Inl e \<Rightarrow> Inl e
      | Inr (st1, i) \<Rightarrow>
          (case pad_frame (Flat (zeros 84)) (Flat (zeros 42)) (hand_2D_seq st1, hand_3D_seq st1, i) of
             Inl e \<Rightarrow> Inl e
           | Inr (seq2, seq3) \<Rightarrow> Inr (st1\<lparr>hand_2D_seq := seq2, hand_3D_seq := seq3\<rparr>)))"

text \<open>\<^verbatim>\<open>get_hands\<close> reads \<^verbatim>\<open>files[1:-1]\<close>.\<close>

definition hands_init :: hands_state where
  "hands_init = \<lparr>hand_2D_seq = ([], []), hand_3D_seq = ([], []), hands = None, hands_3d = None\<rparr>"

definition get_hands :: "hand_person list list \<Rightarrow> error + (hval slots \<times> hval slots)" where
  "get_hands files =
     (case for_each hands_frame (drop 1 (butlast files)) hands_init of
        Inl e \<Rightarrow> Inl e
      | Inr st \<Rightarrow> Inr (hand_2D_seq st, hand_3D_seq st))"

section \<open>Sequence padder\<close>

text \<open>
  \<^verbatim>\<open>padding_seq(dataset)\<close> of the full-keypoint notebooks. \<^verbatim>\<open>max\<close> of an empty list
  raises \<^verbatim>\<open>ValueError\<close>. Each iteration of the inner loop reads \<^verbatim>\<open>seq[0]\<close>
  again, which raises \<^verbatim>\<open>IndexError\<close> on an empty sequence that has to grow. The
  function works in place and returns \<^verbatim>\<open>max_seq\<close>; the model returns the dataset
  after the call with it.
\<close>

fun append_nans :: "nat \<Rightarrow> vec list \<Rightarrow> error + vec list" where
  "append_nans 0 seq = Inr seq"
| "append_nans (Suc k) seq =
     (case seq of
        [] \<Rightarrow> Inl (IndexError ''list index out of range'')
      | v # _ \<Rightarrow> append_nans k (seq @ [replicate (length v) NaN]))"

fun pad_each :: "nat \<Rightarrow> vec list list \<Rightarrow> error + vec list list" where
  "pad_each max_seq [] = Inr []"
| "pad_each max_seq (seq # rest) =
     (case append_nans (max_seq - length seq) seq of
        Inl e \<Rightarrow> Inl e
      | Inr seq' \<Rightarrow>
          (case pad_each max_seq rest of
             Inl e \<Rightarrow> Inl e
           | Inr rest' \<Rightarrow> Inr (seq' # rest')))"

definition padding_seq :: "vec list list \<Rightarrow> error + (vec list list \<times> nat)" where
  "padding_seq dataset =
     (if dataset = [] then Inl (ValueError ''max() arg is an empty sequence'')
      else
        (let max_seq = Max (set (map length dataset)) in
         case pad_each max_seq dataset of
           Inl e \<Rightarrow> Inl e
         | Inr dataset' \<Rightarrow> Inr (dataset', max_seq)))"

text \<open>
  \<^verbatim>\<open>padding_seq(dataset, labels=False)\<close> of the single-keypoint notebook:
  \<^verbatim>\<open>seq.append(np.nan if labels else [0., 0.])\<close>. There an element of an input
  sequence is a list of two floats and an element of a label sequence is one float.
\<close>

datatype elem = Scalar pyfloat | Vector vec

definition padding_seq_kp :: "elem list list \<Rightarrow> bool \<Rightarrow> error + (elem list list \<times> nat)" where
  "padding_seq_kp dataset labels =
     (if dataset = [] then Inl (ValueError ''max() arg is an empty sequence'')
      else
        (let max_seq = Max (set (map length dataset)) in
         Inr (map (\<lambda>seq. seq @ replicate (max_seq - length seq)
                               (if labels then Scalar NaN else Vector [Fin 0, Fin 0])) dataset,
              max_seq)))"

section \<open>Normalizer\<close>

text \<open>
  Arithmetic on floats, exact on finite values: no rounding and no overflow. The special
  values follow IEEE 754. A zero divisor counts as \<open>+0.0\<close>; the only divisor of
  \<^verbatim>\<open>normalize\<close> is a standard deviation, a square root.
\<close>

fun fneg :: "pyfloat \<Rightarrow> pyfloat" where
  "fneg (Fin a) = Fin (- a)"
| "fneg PInf = NInf"
| "fneg NInf = PInf"
| "fneg NaN = NaN"

fun fadd :: "pyfloat \<Rightarrow> pyfloat \<Rightarrow> pyfloat" where
  "fadd NaN y = NaN"
| "fadd x NaN = NaN"
| "fadd (Fin a) (Fin b) = Fin (a + b)"
| "fadd PInf NInf = NaN"
| "fadd NInf PInf = NaN"
| "fadd PInf y = PInf"
| "fadd NInf y = NInf"
| "fadd (Fin a) y = y"

definition fsub :: "pyfloat \<Rightarrow> pyfloat \<Rightarrow> pyfloat" where
  "fsub x y = fadd x (fneg y)"

fun positive :: "pyfloat \<Rightarrow> bool" where
  "positive (Fin a) = (0 \<le> a)"
| "positive PInf = True"
| "positive NInf = False"
| "positive NaN = False"

fun fmul :: "pyfloat \<Rightarrow> pyfloat \<Rightarrow> pyfloat" where
  "fmul NaN y = NaN"
| "fmul x NaN = NaN"
| "fmul (Fin a) (Fin b) = Fin (a * b)"
| "fmul x y =
     (if x = Fin 0 \<or> y = Fin 0 then NaN
      else if positive x = positive y then PInf else NInf)"

fun fdiv :: "pyfloat \<Rightarrow> pyfloat \<Rightarrow> pyfloat" where
  "fdiv NaN y = NaN"
| "fdiv x NaN = NaN"
| "fdiv (Fin a) (Fin b) =
     (if b \<noteq> 0 then Fin (a / b)
      else if a = 0 then NaN
      else if 0 < a then PInf else NInf)"
| "fdiv (Fin a) y = Fin 0"
| "fdiv x (Fin b) = (if positive x = positive (Fin b) then PInf else NInf)"
| "fdiv x y = NaN"

fun fsqrt :: "pyfloat \<Rightarrow> pyfloat" where
  "fsqrt (Fin a) = (if 0 \<le> a then Fin (sqrt a) else NaN)"
| "fsqrt PInf = PInf"
| "fsqrt NInf = NaN"
| "fsqrt NaN = NaN"

definition fsum :: "pyfloat list \<Rightarrow> pyfloat" where
  "fsum xs = foldl fadd (Fin 0) xs"

text \<open>
  \<^verbatim>\<open>np.nanmean\<close> and \<^verbatim>\<open>np.nanstd\<close> over all elements of an array, given as the
  list of its elements: the mean, and the square root of the mean squared deviation from
  the mean, of the elements that are not NaN; NaN when there is none.
\<close>

definition nanmean :: "pyfloat list \<Rightarrow> pyfloat" where
  "nanmean xs =
     (let ys = filter (\<lambda>x. x \<noteq> NaN) xs in
      if ys = [] then NaN else fdiv (fsum ys) (Fin (real (length ys))))"

definition nanstd :: "pyfloat list \<Rightarrow> pyfloat" where
  "nanstd xs =
     (let ys = filter (\<lambda>x. x \<noteq> NaN) xs in
      if ys = [] then NaN
      else
        (let avg = fdiv (fsum ys) (Fin (real (length ys)));
             sqr = map (\<lambda>y. fmul (fsub y avg) (fsub y avg)) ys
         in fsqrt (fdiv (fsum sqr) (Fin (real (length ys))))))"

text \<open>
  A tensor of shape (slots, time, channels) is a list of slots, each a list of frames, each
  a list of channel values. \<^verbatim>\<open>tensor[:, :, i::c]\<close> keeps the channels
  \<open>i, i+c, i+2c, ...\<close> of every frame; \<open>sub_channel\<close> lists its elements.
\<close>

type_synonym tensor = "pyfloat list list list"

definition sub_channel :: "nat \<Rightarrow> nat \<Rightarrow> tensor \<Rightarrow> pyfloat list" where
  "sub_channel i c t = concat (map (\<lambda>slot. concat (map (slice_step i c) slot)) t)"

text \<open>
  \<^verbatim>\<open>subtensor = tensor[:, :, j::c]; subtensor[:] = f(subtensor)\<close>: the slice is a view,
  so the assignment rewrites the channels \<open>j, j+c, ...\<close> of the tensor itself.
\<close>

definition assign_sub :: "nat \<Rightarrow> nat \<Rightarrow> (pyfloat \<Rightarrow> pyfloat) \<Rightarrow> tensor \<Rightarrow> tensor" where
  "assign_sub j c f t =
     map (map (\<lambda>frame. map (\<lambda>ch. if j \<le> ch \<and> (ch - j) mod c = 0 then f (frame ! ch) else frame ! ch)
                            [0 ..< length frame])) t"

text \<open>
  \<^verbatim>\<open>normalize(tensor, coordinates)\<close>: both lists of statistics are computed before the
  loop changes the tensor. The function returns the list of pairs and leaves the tensor
  rescaled; the model returns both.
\<close>

definition normalize_tensor :: "tensor \<Rightarrow> nat \<Rightarrow> tensor \<times> (pyfloat \<times> pyfloat) list" where
  "normalize_tensor t coordinates =
     (let mean_value = map (\<lambda>i. nanmean (sub_channel i coordinates t)) [0 ..< coordinates];
          std_value = map (\<lambda>i. nanstd (sub_channel i coordinates t)) [0 ..< coordinates];
          t' = fold (\<lambda>j u. assign_sub j coordinates (\<lambda>v. fdiv v (std_value ! j))
                              (assign_sub j coordinates (\<lambda>v. fsub v (mean_value ! j)) u))
                    [0 ..< coordinates] t
      in (t', map (\<lambda>i. (mean_value ! i, std_value ! i)) [0 ..< coordinates]))"

section \<open>Dataset partitioner\<close>

text \<open>
  \<^verbatim>\<open>round(0.67*l1)\<close> and \<^verbatim>\<open>round(0.85*l1)\<close> are computed on IEEE doubles, and are
  modelled exactly. The literals \<^verbatim>\<open>0.67\<close> and \<^verbatim>\<open>0.85\<close> denote the doubles
  \<open>6034823500676465 / 2^53\<close> and \<open>7656119366529843 / 2^53\<close>.
\<close>

definition lit_067 :: nat where
  "lit_067 = 6034823500676465"

definition lit_085 :: nat where
  "lit_085 = 7656119366529843"

text \<open>The integer nearest to \<open>p / d\<close>, a tie going to the even one.\<close>

definition round_half_even :: "nat \<Rightarrow> nat \<Rightarrow> nat" where
  "round_half_even p d =
     (let q = p div d; r = p mod d in
      if 2 * r < d then q
      else if d < 2 * r then q + 1
      else if even q then q else q + 1)"

text \<open>
  The product of the double \<open>m / 2^53\<close> and the integer \<open>n\<close> (below \<open>2^53\<close>, so that
  its conversion to a double is exact), rounded to the nearest double, a tie going to the
  even significand of 53 bits: the result is the numerator of that double over \<open>2^53\<close>.
\<close>

definition float_mul :: "nat \<Rightarrow> nat \<Rightarrow> nat" where
  "float_mul m n =
     (let p = m * n; s = floorlog 2 p - 53 in round_half_even p (2 ^ s) * 2 ^ s)"

text \<open>\<^verbatim>\<open>round(x)\<close> of a double: the nearest integer, a tie going to the even one.\<close>

definition py_round :: "nat \<Rightarrow> nat" where
  "py_round x = round_half_even x (2 ^ 53)"

text \<open>
  The cell that splits the dataset:
  \<^verbatim>\<open>dataset[:round(0.67*l1)], dataset[round(0.67*l1):round(0.85*l1)], dataset[round(0.85*l1):]\<close>.
\<close>

definition split_dataset :: "'a list \<Rightarrow> 'a list \<times> 'a list \<times> 'a list" where
  "split_dataset dataset =
     (let l1 = length dataset;
          a = py_round (float_mul lit_067 l1);
          b = py_round (float_mul lit_085 l1)
      in (take a dataset, drop a (take b dataset), drop b dataset))"

section \<open>Properties of the extractors\<close>

subsection \<open>Slices and de-interleaving\<close>

lemma length_slice_step: "length (slice_step k s xs) = (length xs - k + s - 1) div s"
  by (simp add: slice_step_def)

lemma nth_slice_step:
  "j < (length xs - k + s - 1) div s \<Longrightarrow> slice_step k s xs ! j = xs ! (k + j * s)"
  by (simp add: slice_step_def)

lemma length_pairs: "length (concat (map (\<lambda>i. [f i, g i]) [0 ..< n])) = 2 * n"
  by (induction n) simp_all

lemma nth_pairs:
  "j < n \<Longrightarrow> concat (map (\<lambda>i. [f i, g i]) [0 ..< n]) ! (2 * j) = f j
     \<and> concat (map (\<lambda>i. [f i, g i]) [0 ..< n]) ! (2 * j + 1) = g j"
proof (induction n)
  case 0
  then show ?case by simp
next
  case (Suc n)
  show ?case
  proof (cases "j < n")
    case True
    then have "2 * j < 2 * n" "2 * j + 1 < 2 * n" by simp_all
    with Suc.IH [OF True] show ?thesis
      by (simp add: nth_append length_pairs)
  next
    case False
    with Suc.prems have "j = n" by simp
    then show ?thesis
      by (simp add: nth_append length_pairs)
  qed
qed

lemma ceil_div_joints:
  assumes "k < w" "0 < w"
  shows "(w * n - k + w - 1) div w = (n::nat)"
proof (cases n)
  case 0
  with assms show ?thesis by simp
next
  case (Suc m)
  have "k \<le> w * n"
    using assms Suc by (simp add: trans_le_add1 less_imp_le)
  then have "w * n - k + w - 1 = (w - 1 - k) + n * w"
    using assms by (simp add: mult.commute)
  moreover have "((w - 1 - k) + n * w) div w = n + (w - 1 - k) div w"
    using assms by (intro div_mult_self1) simp
  moreover have "(w - 1 - k) div w = 0"
    using assms by (intro div_less) simp
  ultimately show ?thesis by (simp only: add_0_right)
qed

lemma split_coords_joints:
  assumes len: "length lm = w * n" and w: "3 \<le> w"
  shows "\<exists>p d. split_coords w lm = Inr (p, d) \<and> length p = 2 * n \<and> length d = n
           \<and> (\<forall>j<n. p ! (2 * j) = lm ! (w * j) \<and> p ! (2 * j + 1) = lm ! (w * j + 1)
                      \<and> d ! j = lm ! (w * j + 2))"
proof -
  have l0: "length (slice_step 0 w lm) = n"
    using ceil_div_joints [of 0 w n] w len by (simp add: length_slice_step)
  have l1: "length (slice_step 1 w lm) = n"
    using ceil_div_joints [of 1 w n] w len by (simp add: length_slice_step)
  have l2: "length (slice_step 2 w lm) = n"
    using ceil_div_joints [of 2 w n] w len by (simp add: length_slice_step)
  have n0: "slice_step 0 w lm ! j = lm ! (w * j)" if "j < n" for j
    using that l0 nth_slice_step [of j lm 0 w] by (simp add: length_slice_step mult.commute)
  have n1: "slice_step 1 w lm ! j = lm ! (w * j + 1)" if "j < n" for j
    using that l1 nth_slice_step [of j lm 1 w] by (simp add: length_slice_step mult.commute)
  have n2: "slice_step 2 w lm ! j = lm ! (w * j + 2)" if "j < n" for j
    using that l2 nth_slice_step [of j lm 2 w] by (simp add: length_slice_step mult.commute add.commute)
  let ?p = "concat (map (\<lambda>item. [slice_step 0 w lm ! item, slice_step 1 w lm ! item]) [0 ..< n])"
  have sc: "split_coords w lm = Inr (?p, slice_step 2 w lm)"
    using l0 l1 by (simp add: split_coords_def two_coord_def Let_def)
  have "\<forall>j<n. ?p ! (2 * j) = lm ! (w * j) \<and> ?p ! (2 * j + 1) = lm ! (w * j + 1)
                \<and> slice_step 2 w lm ! j = lm ! (w * j + 2)"
    using nth_pairs [of _ n "\<lambda>i. slice_step 0 w lm ! i" "\<lambda>i. slice_step 1 w lm ! i"] n0 n1 n2
    by simp
  with sc l2 show ?thesis
    by (simp add: length_pairs)
qed

lemma xy_indices:
  "filter (\<lambda>c. (c + 1) mod 3 \<noteq> 0) [0 ..< 3 * n] = concat (map (\<lambda>j. [3 * j, 3 * j + 1]) [0 ..< n])"
proof (induction n)
  case 0
  then show ?case by simp
next
  case (Suc n)
  have "3 * Suc n = Suc (Suc (Suc (3 * n)))" by simp
  then have "[0 ..< 3 * Suc n] = [0 ..< 3 * n] @ [3 * n, 3 * n + 1, 3 * n + 2]"
    by (simp only: upt_Suc) simp
  then show ?case using Suc by (simp add: mod_Suc)
qed

lemma slice_step_joints:
  assumes "k < w" and "length lm = w * n"
  shows "length (slice_step k w lm) = n \<and> (\<forall>j<n. slice_step k w lm ! j = lm ! (w * j + k))"
proof -
  have "(length lm - k + w - 1) div w = n"
    using ceil_div_joints [of k w n] assms by simp
  then show ?thesis
    by (simp add: slice_step_def mult.commute add.commute)
qed

lemma xy_values_joints:
  assumes r: "landmarks rng person = Inr r" and l: "landmarks hand person = Inr l"
    and lr: "length r = 3 * n" and ll: "length l = 3 * n"
  shows "\<exists>p. xy_values hand rng person = Inr p \<and> length p = 2 * n
           \<and> (\<forall>j<n. p ! (2 * j) = l ! (3 * j) \<and> p ! (2 * j + 1) = l ! (3 * j + 1))"
proof -
  let ?cs = "concat (map (\<lambda>j. [3 * j, 3 * j + 1]) [0 ..< n])"
  let ?p = "concat (map (\<lambda>j. [l ! (3 * j), l ! (3 * j + 1)]) [0 ..< n])"
  have cs: "filter (\<lambda>c. (c + 1) mod 3 \<noteq> 0) [0 ..< length r] = ?cs"
    using xy_indices [of n] lr by simp
  have bound: "\<not> (\<exists>c \<in> set ?cs. length l \<le> c)"
    using ll by auto
  have m: "map (\<lambda>c. l ! c) ?cs = ?p"
    by (simp add: map_concat comp_def)
  have "xy_values hand rng person = Inr ?p"
  proof (cases "?cs = []")
    case True
    then have "n = 0" by (cases n) simp_all
    with r cs show ?thesis by (simp add: xy_values_def)
  next
    case False
    with r l cs bound m show ?thesis
      by (simp add: xy_values_def Let_def)
  qed
  then show ?thesis
    using nth_pairs [of _ n "\<lambda>j. l ! (3 * j)" "\<lambda>j. l ! (3 * j + 1)"]
    by (simp add: length_pairs)
qed

lemma append_slot_ok: "i < 2 \<Longrightarrow> \<exists>s. append_slot i v seqs = Inr s"
  by (simp add: append_slot_def)

lemma store_person_joints:
  assumes "ident \<noteq> - 1" and "i < 2" and "length lm = w * n" and "3 \<le> w"
  shows "\<exists>p d seq2' seq3'.
           store_person w ident lm (seq2, seq3, i) = Inr (seq2', seq3', i + 1)
         \<and> append_slot i p seq2 = Inr seq2' \<and> append_slot i d seq3 = Inr seq3'
         \<and> length p = 2 * n \<and> length d = n
         \<and> (\<forall>j<n. p ! (2 * j) = lm ! (w * j) \<and> p ! (2 * j + 1) = lm ! (w * j + 1)
                    \<and> d ! j = lm ! (w * j + 2))"
proof -
  obtain p d where pd: "split_coords w lm = Inr (p, d)" "length p = 2 * n" "length d = n"
      "\<forall>j<n. p ! (2 * j) = lm ! (w * j) \<and> p ! (2 * j + 1) = lm ! (w * j + 1) \<and> d ! j = lm ! (w * j + 2)"
    using split_coords_joints [OF assms(3,4)] by blast
  obtain seq2' where s2: "append_slot i p seq2 = Inr seq2'"
    using append_slot_ok [OF assms(2), of p seq2] by blast
  obtain seq3' where s3: "append_slot i d seq3 = Inr seq3'"
    using append_slot_ok [OF assms(2), of d seq3] by blast
  have "store_person w ident lm (seq2, seq3, i) = Inr (seq2', seq3', i + 1)"
    using assms(1) pd(1) s2 s3 by (simp add: store_person_def)
  with pd s2 s3 show ?thesis by blast
qed

lemma hands_person_joints:
  assumes id: "hand_id person \<noteq> - 1" and i: "i < 2"
    and l: "left_hand person = Some l" and r: "right_hand person = Some r"
    and ll: "length l = 3 * n" and lr: "length r = 3 * n"
  shows "\<exists>pl pr zl zr st'.
           hands_person person (st, i) = Inr (st', i + 1)
         \<and> append_slot i (Flat (pl @ pr)) (hand_2D_seq st) = Inr (hand_2D_seq st')
         \<and> append_slot i (Flat (zl @ zr)) (hand_3D_seq st) = Inr (hand_3D_seq st')
         \<and> length pl = 2 * n \<and> length pr = 2 * n \<and> length zl = n \<and> length zr = n
         \<and> (\<forall>j<n. pl ! (2 * j) = l ! (3 * j) \<and> pl ! (2 * j + 1) = l ! (3 * j + 1)
                    \<and> zl ! j = l ! (3 * j + 2)
                    \<and> pr ! (2 * j) = r ! (3 * j) \<and> pr ! (2 * j + 1) = r ! (3 * j + 1)
                    \<and> zr ! j = r ! (3 * j + 2))"
proof -
  have L: "landmarks ''left_hand'' person = Inr l" and R: "landmarks ''right_hand'' person = Inr r"
    using l r by (simp_all add: landmarks_def)
  obtain pl where pl: "xy_values ''left_hand'' ''right_hand'' person = Inr pl" "length pl = 2 * n"
      "\<forall>j<n. pl ! (2 * j) = l ! (3 * j) \<and> pl ! (2 * j + 1) = l ! (3 * j + 1)"
    using xy_values_joints [OF R L lr ll] by blast
  obtain pr where pr: "xy_values ''right_hand'' ''right_hand'' person = Inr pr" "length pr = 2 * n"
      "\<forall>j<n. pr ! (2 * j) = r ! (3 * j) \<and> pr ! (2 * j + 1) = r ! (3 * j + 1)"
    using xy_values_joints [OF R R lr lr] by blast
  let ?zl = "slice_step 2 3 l" and ?zr = "slice_step 2 3 r"
  have zl: "z_values ''left_hand'' person = Inr ?zl" and zr: "z_values ''right_hand'' person = Inr ?zr"
    using L R by (simp_all add: z_values_def)
  have zln: "length ?zl = n \<and> (\<forall>j<n. ?zl ! j = l ! (3 * j + 2))"
    using slice_step_joints [of 2 3 l n] ll by simp
  have zrn: "length ?zr = n \<and> (\<forall>j<n. ?zr ! j = r ! (3 * j + 2))"
    using slice_step_joints [of 2 3 r n] lr by simp
  obtain seq2 where s2: "append_slot i (Flat (pl @ pr)) (hand_2D_seq st) = Inr seq2"
    using append_slot_ok [OF i, of "Flat (pl @ pr)" "hand_2D_seq st"] by blast
  obtain seq3 where s3: "append_slot i (Flat (?zl @ ?zr)) (hand_3D_seq st) = Inr seq3"
    using append_slot_ok [OF i, of "Flat (?zl @ ?zr)" "hand_3D_seq st"] by blast
  let ?st' = "st\<lparr>hands := Some (Nested [pl, pr]), hand_2D_seq := seq2,
                 hands_3d := Some (Nested [?zl, ?zr]), hand_3D_seq := seq3\<rparr>"
  have "try_block person i st = Inr ?st'"
    using pl(1) pr(1) zl zr s2 s3 by (simp add: try_block_def)
  then have "hands_person person (st, i) = Inr (?st', i + 1)"
    using id by (simp add: hands_person_def)
  moreover have "hand_2D_seq ?st' = seq2" "hand_3D_seq ?st' = seq3" by simp_all
  ultimately show ?thesis
    using pl pr zln zrn s2 s3 by (metis (no_types, lifting))
qed

text \<open>
  Claim C5. For a valid person entry (id other than -1, slot index below 2) the extractor
  splits the flat landmark list joint by joint. Face: from the 210 floats the planar vector
  has the 140 values \<open>x1,y1,x2,y2,...\<close> (positions 0 and 1 of every group of 3) and the
  depth vector the 70 values at position 2 of every group. Body: from the 104 floats of
  \<^verbatim>\<open>joints26\<close> the planar vector has the 52 values at positions 0 and 1 of every group
  of 4 and the depth vector the 26 values at position 2; position 3, the confidence, is in
  neither. Hands: each hand of 63 floats gives 42 planar and 21 depth values in the same
  way, left hand first. The vectors are appended to slot \<open>i\<close> of the planar and of the
  depth sequence.
\<close>

theorem extractor_deinterleaves_per_joint:
  assumes "ident \<noteq> - 1" and "i < 2"
  shows "(length face_lm = 210 \<longrightarrow>
            (\<exists>p d seq2' seq3'.
               store_person 3 ident face_lm (seq2, seq3, i) = Inr (seq2', seq3', i + 1)
             \<and> append_slot i p seq2 = Inr seq2' \<and> append_slot i d seq3 = Inr seq3'
             \<and> length p = 140 \<and> length d = 70
             \<and> (\<forall>j<70. p ! (2 * j) = face_lm ! (3 * j) \<and> p ! (2 * j + 1) = face_lm ! (3 * j + 1)
                         \<and> d ! j = face_lm ! (3 * j + 2))))
       \<and> (length body_lm = 104 \<longrightarrow>
            (\<exists>p d seq2' seq3'.
               store_person 4 ident body_lm (seq2, seq3, i) = Inr (seq2', seq3', i + 1)
             \<and> append_slot i p seq2 = Inr seq2' \<and> append_slot i d seq3 = Inr seq3'
             \<and> length p = 52 \<and> length d = 26
             \<and> (\<forall>j<26. p ! (2 * j) = body_lm ! (4 * j) \<and> p ! (2 * j + 1) = body_lm ! (4 * j + 1)
                         \<and> d ! j = body_lm ! (4 * j + 2))))
       \<and> (hand_id person = ident \<and> left_hand person = Some l \<and> right_hand person = Some r
            \<and> length l = 63 \<and> length r = 63 \<longrightarrow>
            (\<exists>pl pr zl zr st'.
               hands_person person (st, i) = Inr (st', i + 1)
             \<and> append_slot i (Flat (pl @ pr)) (hand_2D_seq st) = Inr (hand_2D_seq st')
             \<and> append_slot i (Flat (zl @ zr)) (hand_3D_seq st) = Inr (hand_3D_seq st')
             \<and> length pl = 42 \<and> length pr = 42 \<and> length zl = 21 \<and> length zr = 21
             \<and> (\<forall>j<21. pl ! (2 * j) = l ! (3 * j) \<and> pl ! (2 * j + 1) = l ! (3 * j + 1)
                         \<and> zl ! j = l ! (3 * j + 2)
                         \<and> pr ! (2 * j) = r ! (3 * j) \<and> pr ! (2 * j + 1) = r ! (3 * j + 1)
                         \<and> zr ! j = r ! (3 * j + 2))))"
proof (intro conjI impI)
  assume "length face_lm = 210"
  then show "\<exists>p d seq2' seq3'.
               store_person 3 ident face_lm (seq2, seq3, i) = Inr (seq2', seq3', i + 1)
             \<and> append_slot i p seq2 = Inr seq2' \<and> append_slot i d seq3 = Inr seq3'
             \<and> length p = 140 \<and> length d = 70
             \<and> (\<forall>j<70. p ! (2 * j) = face_lm ! (3 * j) \<and> p ! (2 * j + 1) = face_lm ! (3 * j + 1)
                         \<and> d ! j = face_lm ! (3 * j + 2))"
    using store_person_joints [OF assms, of face_lm 3 70 seq2 seq3] by simp
next
  assume "length body_lm = 104"
  then show "\<exists>p d seq2' seq3'.
               store_person 4 ident body_lm (seq2, seq3, i) = Inr (seq2', seq3', i + 1)
             \<and> append_slot i p seq2 = Inr seq2' \<and> append_slot i d seq3 = Inr seq3'
             \<and> length p = 52 \<and> length d = 26
             \<and> (\<forall>j<26. p ! (2 * j) = body_lm ! (4 * j) \<and> p ! (2 * j + 1) = body_lm ! (4 * j + 1)
                         \<and> d ! j = body_lm ! (4 * j + 2))"
    using store_person_joints [OF assms, of body_lm 4 26 seq2 seq3] by simp
next
  assume h: "hand_id person = ident \<and> left_hand person = Some l \<and> right_hand person = Some r
            \<and> length l = 63 \<and> length r = 63"
  then have "hand_id person \<noteq> - 1" using assms(1) by simp
  from hands_person_joints [OF this assms(2), of l r 21 st] h
  show "\<exists>pl pr zl zr st'.
               hands_person person (st, i) = Inr (st', i + 1)
             \<and> append_slot i (Flat (pl @ pr)) (hand_2D_seq st) = Inr (hand_2D_seq st')
             \<and> append_slot i (Flat (zl @ zr)) (hand_3D_seq st) = Inr (hand_3D_seq st')
             \<and> length pl = 42 \<and> length pr = 42 \<and> length zl = 21 \<and> length zr = 21
             \<and> (\<forall>j<21. pl ! (2 * j) = l ! (3 * j) \<and> pl ! (2 * j + 1) = l ! (3 * j + 1)
                         \<and> zl ! j = l ! (3 * j + 2)
                         \<and> pr ! (2 * j) = r ! (3 * j) \<and> pr ! (2 * j + 1) = r ! (3 * j + 1)
                         \<and> zr ! j = r ! (3 * j + 2))"
    by simp
qed

theorem extractor_deinterleaves_per_joint_witness:
  "(7::int) \<noteq> - 1 \<and> (0::nat) < 2
   \<and> length (map (\<lambda>k. Fin (real k)) [0 ..< 210]) = 210
   \<and> (\<exists>p d seq2' seq3'.
         store_person 3 7 (map (\<lambda>k. Fin (real k)) [0 ..< 210]) (([], []), ([], []), 0)
           = Inr (seq2', seq3', 1)
       \<and> append_slot 0 p ([], []) = Inr seq2' \<and> append_slot 0 d ([], []) = Inr seq3'
       \<and> length p = 140 \<and> length d = 70
       \<and> p ! 2 = Fin 3 \<and> p ! 3 = Fin 4 \<and> d ! 1 = Fin 5)
   \<and> length (map (\<lambda>k. Fin (real k)) [0 ..< 104]) = 104
   \<and> (\<exists>p d seq2' seq3'.
         store_person 4 7 (map (\<lambda>k. Fin (real k)) [0 ..< 104]) (([], []), ([], []), 0)
           = Inr (seq2', seq3', 1)
       \<and> append_slot 0 p ([], []) = Inr seq2' \<and> append_slot 0 d ([], []) = Inr seq3'
       \<and> length p = 52 \<and> length d = 26
       \<and> p ! 2 = Fin 4 \<and> p ! 3 = Fin 5 \<and> d ! 1 = Fin 6)
   \<and> length (map (\<lambda>k. Fin (real k)) [0 ..< 63]) = 63
   \<and> (\<exists>pl pr zl zr st'.
         hands_person \<lparr>hand_id = 7, left_hand = Some (map (\<lambda>k. Fin (real k)) [0 ..< 63]),
                        right_hand = Some (map (\<lambda>k. Fin (real k)) [0 ..< 63])\<rparr> (hands_init, 0)
           = Inr (st', 1)
       \<and> append_slot 0 (Flat (pl @ pr)) ([], []) = Inr (hand_2D_seq st')
       \<and> append_slot 0 (Flat (zl @ zr)) ([], []) = Inr (hand_3D_seq st')
       \<and> length pl = 42 \<and> length pr = 42 \<and> length zl = 21 \<and> length zr = 21
       \<and> pl ! 2 = Fin 3 \<and> pl ! 3 = Fin 4 \<and> zl ! 1 = Fin 5
       \<and> pr ! 2 = Fin 3 \<and> pr ! 3 = Fin 4 \<and> zr ! 1 = Fin 5)"
proof -
  let ?face = "map (\<lambda>k. Fin (real k)) [0 ..< 210]"
  let ?body = "map (\<lambda>k. Fin (real k)) [0 ..< 104]"
  let ?hand = "map (\<lambda>k. Fin (real k)) [0 ..< 63]"
  let ?person = "\<lparr>hand_id = 7, left_hand = Some ?hand, right_hand = Some ?hand\<rparr>"
  have a: "(7::int) \<noteq> - 1" "(0::nat) < 2" by simp_all
  note t = extractor_deinterleaves_per_joint [OF a, of ?face "([], [])" "([], [])" ?body ?person ?hand ?hand hands_init]
  have lf: "length ?face = 210" and lb: "length ?body = 104" and lh: "length ?hand = 63"
    by simp_all
  from t lf obtain p d seq2' seq3' where f:
      "store_person 3 7 ?face (([], []), ([], []), 0) = Inr (seq2', seq3', 0 + 1)"
      "append_slot 0 p ([], []) = Inr seq2'" "append_slot 0 d ([], []) = Inr seq3'"
      "length p = 140" "length d = 70"
      "\<forall>j<70. p ! (2 * j) = ?face ! (3 * j) \<and> p ! (2 * j + 1) = ?face ! (3 * j + 1) \<and> d ! j = ?face ! (3 * j + 2)"
    by blast
  from f(6) have f1: "p ! 2 = Fin 3 \<and> p ! 3 = Fin 4 \<and> d ! 1 = Fin 5"
    by (auto dest!: spec [of _ 1])
  from t lb obtain q e seq2'' seq3'' where b:
      "store_person 4 7 ?body (([], []), ([], []), 0) = Inr (seq2'', seq3'', 0 + 1)"
      "append_slot 0 q ([], []) = Inr seq2''" "append_slot 0 e ([], []) = Inr seq3''"
      "length q = 52" "length e = 26"
      "\<forall>j<26. q ! (2 * j) = ?body ! (4 * j) \<and> q ! (2 * j + 1) = ?body ! (4 * j + 1) \<and> e ! j = ?body ! (4 * j + 2)"
    by blast
  from b(6) have b1: "q ! 2 = Fin 4 \<and> q ! 3 = Fin 5 \<and> e ! 1 = Fin 6"
    by (auto dest!: spec [of _ 1])
  have hp: "hand_id ?person = 7 \<and> left_hand ?person = Some ?hand \<and> right_hand ?person = Some ?hand
            \<and> length ?hand = 63 \<and> length ?hand = 63"
    by simp
  from t hp obtain pl pr zl zr st' where h:
      "hands_person ?person (hands_init, 0) = Inr (st', 0 + 1)"
      "append_slot 0 (Flat (pl @ pr)) (hand_2D_seq hands_init) = Inr (hand_2D_seq st')"
      "append_slot 0 (Flat (zl @ zr)) (hand_3D_seq hands_init) = Inr (hand_3D_seq st')"
      "length pl = 42" "length pr = 42" "length zl = 21" "length zr = 21"
      "\<forall>j<21. pl ! (2 * j) = ?hand ! (3 * j) \<and> pl ! (2 * j + 1) = ?hand ! (3 * j + 1)
                \<and> zl ! j = ?hand ! (3 * j + 2)
                \<and> pr ! (2 * j) = ?hand ! (3 * j) \<and> pr ! (2 * j + 1) = ?hand ! (3 * j + 1)
                \<and> zr ! j = ?hand ! (3 * j + 2)"
    by blast
  from h(8) have h1: "pl ! 2 = Fin 3 \<and> pl ! 3 = Fin 4 \<and> zl ! 1 = Fin 5
                    \<and> pr ! 2 = Fin 3 \<and> pr ! 3 = Fin 4 \<and> zr ! 1 = Fin 5"
    by (auto dest!: spec [of _ 1])
  have hi: "hand_2D_seq hands_init = ([], [])" "hand_3D_seq hands_init = ([], [])"
    by (simp_all add: hands_init_def)
  show ?thesis
    using a lf lb lh f(1-5) f1 b(1-5) b1 h(1-7) h1 unfolding hi
    by (simp only: add_0 One_nat_def [symmetric]) blast
qed

subsection \<open>Frames without a detection\<close>

lemmas extractor_defs =
  get_face_def get_body_def get_hands_def face_frame_def body_frame_def hands_frame_def
  pad_frame_def append_slot_def store_person_def hands_person_def hands_init_def

text \<open>
  Claim C1. A frame in which no person entry has a valid id should give a zero vector to
  both slots. The code writes the zero vectors of such a frame to slot 0 only
  (\<^verbatim>\<open>if i<2: seq[i].append(...)\<close> with \<open>i = 0\<close>); slot 1 receives nothing. Evaluated
  for each modality on a recording with one retained frame whose only entry has id -1.
\<close>

theorem frame_without_detection_pads_slot_0_only:
  "get_face [[], [\<lparr>face_id = - 1, face70_landmarks = []\<rparr>]]
     = Inr (([zeros 140], []), ([zeros 70], []))
   \<and> get_hands [[], [\<lparr>hand_id = - 1, left_hand = None, right_hand = None\<rparr>], []]
     = Inr (([Flat (zeros 84)], []), ([Flat (zeros 42)], []))
   \<and> get_body [[\<lparr>body_id = - 1, joints26 = []\<rparr>], []]
     = Inr (([zeros 52], []), ([zeros 26], []))"
  by (simp add: extractor_defs)

subsection \<open>Assignment of person entries to slots\<close>

lemma for_each_skips_invalid:
  "for_each (\<lambda>p. store_person n (idf p) (lmf p)) people st
     = for_each (\<lambda>p. store_person n (idf p) (lmf p)) (filter (\<lambda>p. idf p \<noteq> - 1) people) st"
proof (induction people arbitrary: st)
  case Nil
  then show ?case by simp
next
  case (Cons p people)
  show ?case
  proof (cases "idf p = - 1")
    case True
    then have "store_person n (idf p) (lmf p) st = Inr st"
      by (simp add: store_person_def split: prod.splits)
    with True Cons.IH show ?thesis by simp
  next
    case False
    with Cons.IH show ?thesis by (simp split: sum.splits)
  qed
qed

lemma split_coords_error:
  "split_coords n lm = Inl e \<Longrightarrow> e = IndexError ''list index out of range''"
  by (auto simp: split_coords_def two_coord_def Let_def split: if_splits)

lemma store_person_error:
  "store_person n ident lm st = Inl e \<Longrightarrow> \<exists>msg. e = IndexError msg"
  by (auto simp: store_person_def append_slot_def dest: split_coords_error
           split: prod.splits if_splits sum.splits)

lemma store_person_success:
  "store_person n ident lm (seq2, seq3, i) = Inr st' \<Longrightarrow> ident \<noteq> - 1
     \<Longrightarrow> i < 2 \<and> (\<exists>seq2' seq3'. st' = (seq2', seq3', i + 1))"
  by (auto simp: store_person_def append_slot_def split: prod.splits if_splits sum.splits)

lemma third_valid_entry_raises:
  assumes "valid \<noteq> []" and "2 < length valid + i" and "\<forall>p \<in> set valid. idf p \<noteq> - 1"
  shows "\<exists>msg. for_each (\<lambda>p. store_person n (idf p) (lmf p)) valid (seq2, seq3, i) = Inl (IndexError msg)"
  using assms
proof (induction valid arbitrary: seq2 seq3 i)
  case Nil
  then show ?case by simp
next
  case (Cons p ps)
  show ?case
  proof (cases "store_person n (idf p) (lmf p) (seq2, seq3, i)")
    case (Inl e)
    then show ?thesis using store_person_error [OF Inl] by auto
  next
    case (Inr st')
    from Cons.prems(3) have idp: "idf p \<noteq> - 1" by simp
    from store_person_success [OF Inr idp] obtain seq2' seq3'
      where i: "i < 2" and st': "st' = (seq2', seq3', i + 1)" by blast
    from i Cons.prems(2) have ne: "ps \<noteq> []" by auto
    from Cons.prems(2) have len: "2 < length ps + (i + 1)" by simp
    from Cons.prems(3) have all: "\<forall>p \<in> set ps. idf p \<noteq> - 1" by simp
    from Cons.IH [OF ne len all, of seq2' seq3'] Inr st' show ?thesis by simp
  qed
qed

lemma frame_with_one_valid:
  assumes "filter (\<lambda>p. idf p \<noteq> - 1) people = [p]"
    and "split_coords n (lmf p) = Inr (tc, th)"
  shows "(case for_each (\<lambda>p. store_person n (idf p) (lmf p)) people (seq2, seq3, 0) of
            Inl e \<Rightarrow> Inl e | Inr st \<Rightarrow> pad_frame z2 z3 st)
         = Inr ((fst seq2 @ [tc], snd seq2 @ [z2]), (fst seq3 @ [th], snd seq3 @ [z3]))"
proof -
  have "p \<in> set (filter (\<lambda>p. idf p \<noteq> - 1) people)" using assms(1) by simp
  then have "idf p \<noteq> - 1" by simp
  then show ?thesis
    using assms
    by (simp add: for_each_skips_invalid [of n idf lmf people] store_person_def append_slot_def
        pad_frame_def)
qed

lemma frame_with_two_valid:
  assumes "filter (\<lambda>p. idf p \<noteq> - 1) people = [p, q]"
    and "split_coords n (lmf p) = Inr (tc, th)"
    and "split_coords n (lmf q) = Inr (tc', th')"
  shows "(case for_each (\<lambda>p. store_person n (idf p) (lmf p)) people (seq2, seq3, 0) of
            Inl e \<Rightarrow> Inl e | Inr st \<Rightarrow> pad_frame z2 z3 st)
         = Inr ((fst seq2 @ [tc], snd seq2 @ [tc']), (fst seq3 @ [th], snd seq3 @ [th']))"
proof -
  have "set [p, q] \<subseteq> set (filter (\<lambda>p. idf p \<noteq> - 1) people)" using assms(1) by simp
  then have "idf p \<noteq> - 1" "idf q \<noteq> - 1" by simp_all
  then show ?thesis
    using assms
    by (simp add: for_each_skips_invalid [of n idf lmf people] store_person_def append_slot_def
        pad_frame_def)
qed

lemma frame_with_more_valid:
  assumes "2 < length (filter (\<lambda>p. idf p \<noteq> - 1) people)"
  shows "\<exists>msg. (case for_each (\<lambda>p. store_person n (idf p) (lmf p)) people (seq2, seq3, 0) of
            Inl e \<Rightarrow> Inl e | Inr st \<Rightarrow> pad_frame z2 z3 st) = Inl (IndexError msg)"
proof -
  let ?valid = "filter (\<lambda>p. idf p \<noteq> - 1) people"
  have "?valid \<noteq> []" "2 < length ?valid + 0" "\<forall>p \<in> set ?valid. idf p \<noteq> - 1"
    using assms by auto
  from third_valid_entry_raises [OF this, of n lmf seq2 seq3]
  show ?thesis
    by (auto simp: for_each_skips_invalid [of n idf lmf people])
qed

lemma split_coords_example3: "split_coords 3 [Fin a, Fin b, Fin c] = Inr ([Fin a, Fin b], [Fin c])"
  by (simp add: split_coords_def two_coord_def slice_step_def)

lemma split_coords_example4:
  "split_coords 4 [Fin a, Fin b, Fin c, Fin w] = Inr ([Fin a, Fin b], [Fin c])"
  by (simp add: split_coords_def two_coord_def slice_step_def)

text \<open>
  Claim C2, as amended. In a face or body frame the valid person entries (id other than -1)
  go to slot 0, then slot 1, in document order, entries with id -1 being skipped. With one
  valid entry slot 0 receives its vectors and slot 1 the zero vectors; with two valid
  entries slot 0 receives the first and slot 1 the second; in both cases each of the four
  sequences grows by exactly one element. A frame with more than two valid entries is not
  trimmed to two: the extractor raises \<^verbatim>\<open>IndexError\<close>.
\<close>

theorem slots_filled_in_document_order:
  "(filter (\<lambda>p. face_id p \<noteq> - 1) people1 = [p]
      \<and> split_coords 3 (face70_landmarks p) = Inr (tc, th)
    \<longrightarrow> face_frame people1 (seq2, seq3)
          = Inr ((fst seq2 @ [tc], snd seq2 @ [zeros 140]), (fst seq3 @ [th], snd seq3 @ [zeros 70])))
   \<and> (filter (\<lambda>p. face_id p \<noteq> - 1) people2 = [q, q']
      \<and> split_coords 3 (face70_landmarks q) = Inr (qc, qh)
      \<and> split_coords 3 (face70_landmarks q') = Inr (qc', qh')
    \<longrightarrow> face_frame people2 (seq2, seq3)
          = Inr ((fst seq2 @ [qc], snd seq2 @ [qc']), (fst seq3 @ [qh], snd seq3 @ [qh'])))
   \<and> (2 < length (filter (\<lambda>p. face_id p \<noteq> - 1) people3)
    \<longrightarrow> (\<exists>msg. face_frame people3 (seq2, seq3) = Inl (IndexError msg)))
   \<and> (filter (\<lambda>b. body_id b \<noteq> - 1) bodies1 = [b]
      \<and> split_coords 4 (joints26 b) = Inr (bc, bh)
    \<longrightarrow> body_frame bodies1 (seq2, seq3)
          = Inr ((fst seq2 @ [bc], snd seq2 @ [zeros 52]), (fst seq3 @ [bh], snd seq3 @ [zeros 26])))
   \<and> (filter (\<lambda>b. body_id b \<noteq> - 1) bodies2 = [d, d']
      \<and> split_coords 4 (joints26 d) = Inr (dc, dh)
      \<and> split_coords 4 (joints26 d') = Inr (dc', dh')
    \<longrightarrow> body_frame bodies2 (seq2, seq3)
          = Inr ((fst seq2 @ [dc], snd seq2 @ [dc']), (fst seq3 @ [dh], snd seq3 @ [dh'])))
   \<and> (2 < length (filter (\<lambda>b. body_id b \<noteq> - 1) bodies3)
    \<longrightarrow> (\<exists>msg. body_frame bodies3 (seq2, seq3) = Inl (IndexError msg)))"
  using frame_with_one_valid [where idf = face_id and people = people1 and p = p and n = 3
      and lmf = face70_landmarks and tc = tc and th = th and ?seq2.0 = seq2 and ?seq3.0 = seq3
      and ?z2.0 = "zeros 140" and ?z3.0 = "zeros 70"]
    frame_with_two_valid [where idf = face_id and people = people2 and p = q and q = q' and n = 3
      and lmf = face70_landmarks and tc = qc and th = qh and tc' = qc' and th' = qh'
      and ?seq2.0 = seq2 and ?seq3.0 = seq3 and ?z2.0 = "zeros 140" and ?z3.0 = "zeros 70"]
    frame_with_more_valid [where idf = face_id and people = people3 and n = 3
      and lmf = face70_landmarks and ?seq2.0 = seq2 and ?seq3.0 = seq3
      and ?z2.0 = "zeros 140" and ?z3.0 = "zeros 70"]
    frame_with_one_valid [where idf = body_id and people = bodies1 and p = b and n = 4
      and lmf = joints26 and tc = bc and th = bh and ?seq2.0 = seq2 and ?seq3.0 = seq3
      and ?z2.0 = "zeros 52" and ?z3.0 = "zeros 26"]
    frame_with_two_valid [where idf = body_id and people = bodies2 and p = d and q = d' and n = 4
      and lmf = joints26 and tc = dc and th = dh and tc' = dc' and th' = dh'
      and ?seq2.0 = seq2 and ?seq3.0 = seq3 and ?z2.0 = "zeros 52" and ?z3.0 = "zeros 26"]
    frame_with_more_valid [where idf = body_id and people = bodies3 and n = 4
      and lmf = joints26 and ?seq2.0 = seq2 and ?seq3.0 = seq3
      and ?z2.0 = "zeros 52" and ?z3.0 = "zeros 26"]
  by (simp add: face_frame_def body_frame_def)

theorem slots_filled_in_document_order_witness:
  "face_frame [\<lparr>face_id = - 1, face70_landmarks = []\<rparr>,
               \<lparr>face_id = 4, face70_landmarks = [Fin 1, Fin 2, Fin 3]\<rparr>] (([], []), ([], []))
     = Inr (([[Fin 1, Fin 2]], [zeros 140]), ([[Fin 3]], [zeros 70]))
   \<and> face_frame [\<lparr>face_id = 4, face70_landmarks = [Fin 1, Fin 2, Fin 3]\<rparr>,
                 \<lparr>face_id = - 1, face70_landmarks = []\<rparr>,
                 \<lparr>face_id = 5, face70_landmarks = [Fin 4, Fin 5, Fin 6]\<rparr>] (([], []), ([], []))
     = Inr (([[Fin 1, Fin 2]], [[Fin 4, Fin 5]]), ([[Fin 3]], [[Fin 6]]))
   \<and> (\<exists>msg. face_frame [\<lparr>face_id = 4, face70_landmarks = [Fin 1, Fin 2, Fin 3]\<rparr>,
                 \<lparr>face_id = 5, face70_landmarks = [Fin 4, Fin 5, Fin 6]\<rparr>,
                 \<lparr>face_id = 6, face70_landmarks = [Fin 7, Fin 8, Fin 9]\<rparr>] (([], []), ([], []))
     = Inl (IndexError msg))
   \<and> body_frame [\<lparr>body_id = 4, joints26 = [Fin 1, Fin 2, Fin 3, Fin 1]\<rparr>] (([], []), ([], []))
     = Inr (([[Fin 1, Fin 2]], [zeros 52]), ([[Fin 3]], [zeros 26]))
   \<and> body_frame [\<lparr>body_id = 4, joints26 = [Fin 1, Fin 2, Fin 3, Fin 1]\<rparr>,
                 \<lparr>body_id = 5, joints26 = [Fin 4, Fin 5, Fin 6, Fin 1]\<rparr>] (([], []), ([], []))
     = Inr (([[Fin 1, Fin 2]], [[Fin 4, Fin 5]]), ([[Fin 3]], [[Fin 6]]))
   \<and> (\<exists>msg. body_frame [\<lparr>body_id = 4, joints26 = [Fin 1, Fin 2, Fin 3, Fin 1]\<rparr>,
                 \<lparr>body_id = 5, joints26 = [Fin 4, Fin 5, Fin 6, Fin 1]\<rparr>,
                 \<lparr>body_id = 6, joints26 = [Fin 7, Fin 8, Fin 9, Fin 1]\<rparr>] (([], []), ([], []))
     = Inl (IndexError msg))"
  using slots_filled_in_document_order
    [where ?people1.0 = "[\<lparr>face_id = - 1, face70_landmarks = []\<rparr>,
                          \<lparr>face_id = 4, face70_landmarks = [Fin 1, Fin 2, Fin 3]\<rparr>]"
       and p = "\<lparr>face_id = 4, face70_landmarks = [Fin 1, Fin 2, Fin 3]\<rparr>"
       and tc = "[Fin 1, Fin 2]" and th = "[Fin 3]"
       and ?people2.0 = "[\<lparr>face_id = 4, face70_landmarks = [Fin 1, Fin 2, Fin 3]\<rparr>,
                 \<lparr>face_id = - 1, face70_landmarks = []\<rparr>,
                 \<lparr>face_id = 5, face70_landmarks = [Fin 4, Fin 5, Fin 6]\<rparr>]"
       and q = "\<lparr>face_id = 4, face70_landmarks = [Fin 1, Fin 2, Fin 3]\<rparr>"
       and q' = "\<lparr>face_id = 5, face70_landmarks = [Fin 4, Fin 5, Fin 6]\<rparr>"
       and qc = "[Fin 1, Fin 2]" and qh = "[Fin 3]" and qc' = "[Fin 4, Fin 5]" and qh' = "[Fin 6]"
       and ?people3.0 = "[\<lparr>face_id = 4, face70_landmarks = [Fin 1, Fin 2, Fin 3]\<rparr>,
                 \<lparr>face_id = 5, face70_landmarks = [Fin 4, Fin 5, Fin 6]\<rparr>,
                 \<lparr>face_id = 6, face70_landmarks = [Fin 7, Fin 8, Fin 9]\<rparr>]"
       and ?bodies1.0 = "[\<lparr>body_id = 4, joints26 = [Fin 1, Fin 2, Fin 3, Fin 1]\<rparr>]"
       and b = "\<lparr>body_id = 4, joints26 = [Fin 1, Fin 2, Fin 3, Fin 1]\<rparr>"
       and bc = "[Fin 1, Fin 2]" and bh = "[Fin 3]"
       and ?bodies2.0 = "[\<lparr>body_id = 4, joints26 = [Fin 1, Fin 2, Fin 3, Fin 1]\<rparr>,
                 \<lparr>body_id = 5, joints26 = [Fin 4, Fin 5, Fin 6, Fin 1]\<rparr>]"
       and d = "\<lparr>body_id = 4, joints26 = [Fin 1, Fin 2, Fin 3, Fin 1]\<rparr>"
       and d' = "\<lparr>body_id = 5, joints26 = [Fin 4, Fin 5, Fin 6, Fin 1]\<rparr>"
       and dc = "[Fin 1, Fin 2]" and dh = "[Fin 3]" and dc' = "[Fin 4, Fin 5]" and dh' = "[Fin 6]"
       and ?bodies3.0 = "[\<lparr>body_id = 4, joints26 = [Fin 1, Fin 2, Fin 3, Fin 1]\<rparr>,
                 \<lparr>body_id = 5, joints26 = [Fin 4, Fin 5, Fin 6, Fin 1]\<rparr>,
                 \<lparr>body_id = 6, joints26 = [Fin 7, Fin 8, Fin 9, Fin 1]\<rparr>]"
       and ?seq2.0 = "([], [])" and ?seq3.0 = "([], [])"]
  by (simp add: split_coords_example3 split_coords_example4)

text \<open>
  Claim C2 as stated fails: a face frame with three valid entries of 210 floats each makes
  \<^verbatim>\<open>get_face\<close> raise \<^verbatim>\<open>IndexError: tuple index out of range\<close>.
\<close>

theorem three_valid_entries_counterexample:
  "get_face [[], [\<lparr>face_id = 0, face70_landmarks = replicate 210 (Fin 1)\<rparr>,
                  \<lparr>face_id = 1, face70_landmarks = replicate 210 (Fin 1)\<rparr>,
                  \<lparr>face_id = 2, face70_landmarks = replicate 210 (Fin 1)\<rparr>]]
     = Inl (IndexError ''tuple index out of range'')"
proof -
  have "length (replicate 210 (Fin 1)) = 3 * 70" by simp
  then obtain tc th where "split_coords 3 (replicate 210 (Fin 1)) = Inr (tc, th)"
    using split_coords_joints [of "replicate 210 (Fin 1)" 3 70] by auto
  then show ?thesis
    by (simp add: get_face_def face_frame_def store_person_def append_slot_def)
qed

subsection \<open>Exceptions that no recovery branch matches\<close>

lemma landmarks_error: "landmarks hand person = Inl e \<Longrightarrow> e = KeyError hand"
  by (simp add: landmarks_def split: option.splits)

lemma xy_values_error:
  "xy_values hand rng person = Inl e
     \<Longrightarrow> e = KeyError rng \<or> e = KeyError hand \<or> e = IndexError ''list index out of range''"
  by (auto simp: xy_values_def Let_def dest: landmarks_error split: sum.splits if_splits)

lemma z_values_error: "z_values hand person = Inl e \<Longrightarrow> e = KeyError hand"
  by (auto simp: z_values_def dest: landmarks_error split: sum.splits)

lemma key_error_matches:
  "sublist ''left_hand'' (str (KeyError ''left_hand''))"
  "sublist ''right_hand'' (str (KeyError ''right_hand''))"
  by (simp_all add: sublist_code)

lemma try_block_unmatched:
  assumes "try_block person i st = Inl (e, st1)" and "i < 2"
    and "\<not> sublist ''left_hand'' (str e)" and "\<not> sublist ''right_hand'' (str e)"
  shows "e = IndexError ''list index out of range'' \<and> st1 = st"
proof -
  have no_key: "e \<noteq> KeyError ''left_hand''" "e \<noteq> KeyError ''right_hand''"
    using assms(3,4) key_error_matches by auto
  show ?thesis
  proof (cases "xy_values ''left_hand'' ''right_hand'' person")
    case (Inl e1)
    with assms(1) have "e = e1" "st1 = st" by (simp_all add: try_block_def)
    with xy_values_error [OF Inl] no_key show ?thesis by auto
  next
    case hl: (Inr hl)
    show ?thesis
    proof (cases "xy_values ''right_hand'' ''right_hand'' person")
      case (Inl e1)
      with hl assms(1) have "e = e1" "st1 = st" by (simp_all add: try_block_def)
      with xy_values_error [OF Inl] no_key show ?thesis by auto
    next
      case hr: (Inr hr)
      obtain seq2 where s2: "append_slot i (Flat (hl @ hr)) (hand_2D_seq st) = Inr seq2"
        using append_slot_ok [OF assms(2), of "Flat (hl @ hr)" "hand_2D_seq st"] by blast
      show ?thesis
      proof (cases "z_values ''left_hand'' person")
        case (Inl e1)
        with hl hr s2 assms(1) have "e = e1" by (simp add: try_block_def)
        with z_values_error [OF Inl] no_key show ?thesis by simp
      next
        case zl: (Inr zl)
        show ?thesis
        proof (cases "z_values ''right_hand'' person")
          case (Inl e1)
          with hl hr s2 zl assms(1) have "e = e1" by (simp add: try_block_def)
          with z_values_error [OF Inl] no_key show ?thesis by simp
        next
          case zr: (Inr zr)
          obtain seq3 where "append_slot i (Flat (zl @ zr)) (hand_3D_seq st) = Inr seq3"
            using append_slot_ok [OF assms(2), of "Flat (zl @ zr)" "hand_3D_seq st"] by blast
          with hl hr s2 zl zr assms(1) show ?thesis by (simp add: try_block_def)
        qed
      qed
    qed
  qed
qed

lemma xy_values_short:
  assumes "landmarks rng person = Inr r" and "landmarks hand person = Inr l"
    and "c < length r" and "(c + 1) mod 3 \<noteq> 0" and "length l \<le> c"
  shows "xy_values hand rng person = Inl (IndexError ''list index out of range'')"
proof -
  let ?cs = "filter (\<lambda>c. (c + 1) mod 3 \<noteq> 0) [0 ..< length r]"
  have mem: "c \<in> set ?cs" using assms(3,4) by simp
  then have ne: "?cs \<noteq> []" by (metis empty_iff list.set(1))
  from mem have "\<exists>c \<in> set ?cs. length l \<le> c"
    using assms(5) by blast
  with ne have "?cs \<noteq> []" "\<exists>c \<in> set ?cs. length l \<le> c" by blast+
  then show ?thesis
    using assms(1,2) by (simp add: xy_values_def Let_def)
qed

lemma xy_values_replicate:
  assumes "landmarks rng person = Inr (replicate (3 * n) b)"
    and "landmarks hand person = Inr (replicate (3 * n) a)"
  shows "xy_values hand rng person = Inr (replicate (2 * n) a)"
proof -
  obtain p where p: "xy_values hand rng person = Inr p" "length p = 2 * n"
      "\<forall>j<n. p ! (2 * j) = replicate (3 * n) a ! (3 * j)
            \<and> p ! (2 * j + 1) = replicate (3 * n) a ! (3 * j + 1)"
    using xy_values_joints [OF assms, of n] by auto
  have "p ! k = a" if "k < 2 * n" for k
  proof -
    have j: "k div 2 < n" using that by simp
    show ?thesis
    proof (cases "even k")
      case True
      then have "k = 2 * (k div 2)" by simp
      with p(3) j have "p ! k = replicate (3 * n) a ! (3 * (k div 2))" by metis
      then show ?thesis using j by simp
    next
      case False
      then have "k = 2 * (k div 2) + 1" by (simp add: odd_two_times_div_two_succ)
      with p(3) j have "p ! k = replicate (3 * n) a ! (3 * (k div 2) + 1)" by metis
      then show ?thesis using j by simp
    qed
  qed
  then have "p = replicate (2 * n) a"
    using p(2) by (intro nth_equalityI) simp_all
  with p(1) show ?thesis by simp
qed

lemma slice_step_replicate: "k < w \<Longrightarrow> slice_step k w (replicate (w * n) a) = replicate n a"
proof -
  assume "k < w"
  then have "length (slice_step k w (replicate (w * n) a)) = n
     \<and> (\<forall>j<n. slice_step k w (replicate (w * n) a) ! j = replicate (w * n) a ! (w * j + k))"
    using slice_step_joints [of k w "replicate (w * n) a" n] by simp
  moreover have "w * j + k < w * n" if "j < n" for j
  proof -
    have "w * j + k < w * j + w" using \<open>k < w\<close> by simp
    also have "\<dots> = w * Suc j" by simp
    also have "\<dots> \<le> w * n" using that by (intro mult_le_mono2) simp
    finally show ?thesis .
  qed
  ultimately show ?thesis
    by (intro nth_equalityI) simp_all
qed

text \<open>
  Claim C10, as amended. The recovery branch is chosen by the substrings \<^verbatim>\<open>'left_hand'\<close>
  and \<^verbatim>\<open>'right_hand'\<close> of the message. When the \<^verbatim>\<open>try\<close> block of a valid person
  entry (slot index below 2) raises an exception whose message has neither, no branch
  assigns \<^verbatim>\<open>hands\<close> or \<^verbatim>\<open>hands_3d\<close> and the state is the one before the entry.
  The appends that follow read the two variables: if \<^verbatim>\<open>hands\<close> was never assigned in
  this call the extractor raises the unbound-variable error; if an earlier entry assigned
  both, their old values are appended to slot \<open>i\<close> and no exception is raised.
\<close>

theorem unmatched_exception_appends_stale_values:
  assumes "hand_id person \<noteq> - 1" and "i < 2"
    and "try_block person i st = Inl (e, st1)"
    and "\<not> sublist ''left_hand'' (str e)" and "\<not> sublist ''right_hand'' (str e)"
  shows "recover e person st1 = Inr st
       \<and> (hands st = None \<longrightarrow> hands_person person (st, i) = Inl (UnboundLocalError ''hands''))
       \<and> (hands st = Some h \<and> hands_3d st = None
            \<longrightarrow> hands_person person (st, i) = Inl (UnboundLocalError ''hands_3d''))
       \<and> (hands st = Some h \<and> hands_3d st = Some h3
            \<longrightarrow> (\<exists>seq2 seq3.
                   append_slot i h (hand_2D_seq st) = Inr seq2
                 \<and> append_slot i h3 (hand_3D_seq st) = Inr seq3
                 \<and> hands_person person (st, i)
                     = Inr (st\<lparr>hand_2D_seq := seq2, hand_3D_seq := seq3\<rparr>, i + 1)))"
proof -
  from try_block_unmatched [OF assms(3) assms(2) assms(4) assms(5)]
  have st1: "st1 = st" by simp
  have rec: "recover e person st1 = Inr st"
    using assms(4,5) st1 by (simp add: recover_def)
  have hp: "hands_person person (st, i)
              = (case append_recovered i st of Inl e' \<Rightarrow> Inl e' | Inr st3 \<Rightarrow> Inr (st3, i + 1))"
    using assms(1,3) rec by (simp add: hands_person_def)
  show ?thesis
    using rec hp assms(2) by (auto simp: append_recovered_def append_slot_def)
qed

theorem unmatched_exception_appends_stale_values_witness:
  "hands_person \<lparr>hand_id = 0, left_hand = Some [], right_hand = Some [Fin 4, Fin 5, Fin 6]\<rparr>
     (hands_init, 0) = Inl (UnboundLocalError ''hands'')
   \<and> hands_person \<lparr>hand_id = 0, left_hand = Some [], right_hand = Some [Fin 4, Fin 5, Fin 6]\<rparr>
     (hands_init\<lparr>hands := Some (Flat [Fin 9])\<rparr>, 0) = Inl (UnboundLocalError ''hands_3d'')
   \<and> hands_person \<lparr>hand_id = 0, left_hand = Some [], right_hand = Some [Fin 4, Fin 5, Fin 6]\<rparr>
     (hands_init\<lparr>hands := Some (Nested [[Fin 1, Fin 2], [Fin 4, Fin 5]]),
                  hands_3d := Some (Nested [[Fin 3], [Fin 6]])\<rparr>, 1)
     = Inr (hands_init\<lparr>hands := Some (Nested [[Fin 1, Fin 2], [Fin 4, Fin 5]]),
                        hands_3d := Some (Nested [[Fin 3], [Fin 6]]),
                        hand_2D_seq := ([], [Nested [[Fin 1, Fin 2], [Fin 4, Fin 5]]]),
                        hand_3D_seq := ([], [Nested [[Fin 3], [Fin 6]]])\<rparr>, 2)"
proof -
  let ?p = "\<lparr>hand_id = 0, left_hand = Some [], right_hand = Some [Fin 4, Fin 5, Fin 6]\<rparr>"
  let ?e = "IndexError ''list index out of range''"
  have id: "hand_id ?p \<noteq> - 1" by simp
  have pl: "landmarks ''left_hand'' ?p = Inr []"
    and pr: "landmarks ''right_hand'' ?p = Inr [Fin 4, Fin 5, Fin 6]"
    by (simp_all add: landmarks_def)
  have "xy_values ''left_hand'' ''right_hand'' ?p = Inl ?e"
    by (rule xy_values_short [OF pr pl, where c = 0]) simp_all
  then have tb: "try_block ?p i st = Inl (?e, st)" for i st
    by (simp add: try_block_def)
  have nl: "\<not> sublist ''left_hand'' (str ?e)" and nr: "\<not> sublist ''right_hand'' (str ?e)"
    by (simp_all add: sublist_code)
  have i0: "(0::nat) < 2" and i1: "(1::nat) < 2" by simp_all
  note a = unmatched_exception_appends_stale_values [OF id i0 tb nl nr, of hands_init]
  note b = unmatched_exception_appends_stale_values [OF id i0 tb nl nr,
      of "hands_init\<lparr>hands := Some (Flat [Fin 9])\<rparr>" "Flat [Fin 9]"]
  note c = unmatched_exception_appends_stale_values [OF id i1 tb nl nr,
      of "hands_init\<lparr>hands := Some (Nested [[Fin 1, Fin 2], [Fin 4, Fin 5]]),
                      hands_3d := Some (Nested [[Fin 3], [Fin 6]])\<rparr>"
         "Nested [[Fin 1, Fin 2], [Fin 4, Fin 5]]" "Nested [[Fin 3], [Fin 6]]"]
  have "hands_person ?p (hands_init, 0) = Inl (UnboundLocalError ''hands'')"
    using a by (simp add: hands_init_def)
  moreover have "hands_person ?p (hands_init\<lparr>hands := Some (Flat [Fin 9])\<rparr>, 0)
      = Inl (UnboundLocalError ''hands_3d'')"
    using b by (simp add: hands_init_def)
  moreover have "hands_person ?p
     (hands_init\<lparr>hands := Some (Nested [[Fin 1, Fin 2], [Fin 4, Fin 5]]),
                  hands_3d := Some (Nested [[Fin 3], [Fin 6]])\<rparr>, 1)
     = Inr (hands_init\<lparr>hands := Some (Nested [[Fin 1, Fin 2], [Fin 4, Fin 5]]),
                        hands_3d := Some (Nested [[Fin 3], [Fin 6]]),
                        hand_2D_seq := ([], [Nested [[Fin 1, Fin 2], [Fin 4, Fin 5]]]),
                        hand_3D_seq := ([], [Nested [[Fin 3], [Fin 6]]])\<rparr>, 2)"
    using c by (auto simp: hands_init_def append_slot_def)
  ultimately show ?thesis by blast
qed

text \<open>
  Claim C10 as stated fails: the second retained frame holds a person whose left hand has
  60 floats and whose right hand has 63. Reading the left hand raises \<^verbatim>\<open>IndexError\<close>,
  yet \<^verbatim>\<open>get_hands\<close> returns: slot 0 gets, for that frame, the list of two lists left in
  \<^verbatim>\<open>hands\<close> by the person of the frame before.
\<close>

theorem stale_values_counterexample:
  "get_hands [[],
      [\<lparr>hand_id = 0, left_hand = Some (replicate 63 (Fin 1)), right_hand = Some (replicate 63 (Fin 2))\<rparr>],
      [\<lparr>hand_id = 0, left_hand = Some (replicate 60 (Fin 3)), right_hand = Some (replicate 63 (Fin 4))\<rparr>],
      []]
   = Inr (([Flat (replicate 42 (Fin 1) @ replicate 42 (Fin 2)),
            Nested [replicate 42 (Fin 1), replicate 42 (Fin 2)]],
           [Flat (zeros 84), Flat (zeros 84)]),
          ([Flat (replicate 21 (Fin 1) @ replicate 21 (Fin 2)),
            Nested [replicate 21 (Fin 1), replicate 21 (Fin 2)]],
           [Flat (zeros 42), Flat (zeros 42)]))"
proof -
  let ?good = "\<lparr>hand_id = 0, left_hand = Some (replicate 63 (Fin 1)), right_hand = Some (replicate 63 (Fin 2))\<rparr>"
  let ?short = "\<lparr>hand_id = 0, left_hand = Some (replicate 60 (Fin 3)), right_hand = Some (replicate 63 (Fin 4))\<rparr>"
  have gl: "landmarks ''left_hand'' ?good = Inr (replicate (3 * 21) (Fin 1))"
    and gr: "landmarks ''right_hand'' ?good = Inr (replicate (3 * 21) (Fin 2))"
    by (simp_all add: landmarks_def)
  have g1: "xy_values ''left_hand'' ''right_hand'' ?good = Inr (replicate 42 (Fin 1))"
    using xy_values_replicate [OF gr gl] by simp
  have g2: "xy_values ''right_hand'' ''right_hand'' ?good = Inr (replicate 42 (Fin 2))"
    using xy_values_replicate [OF gr gr] by simp
  have g3: "z_values ''left_hand'' ?good = Inr (replicate 21 (Fin 1))"
    using slice_step_replicate [of 2 3 21 "Fin 1"] by (simp add: z_values_def landmarks_def)
  have g4: "z_values ''right_hand'' ?good = Inr (replicate 21 (Fin 2))"
    using slice_step_replicate [of 2 3 21 "Fin 2"] by (simp add: z_values_def landmarks_def)
  have sl: "landmarks ''left_hand'' ?short = Inr (replicate 60 (Fin 3))"
    and sr: "landmarks ''right_hand'' ?short = Inr (replicate 63 (Fin 4))"
    by (simp_all add: landmarks_def)
  have s1: "xy_values ''left_hand'' ''right_hand'' ?short = Inl (IndexError ''list index out of range'')"
    by (rule xy_values_short [OF sr sl, where c = 60]) simp_all
  show ?thesis
    by (simp add: get_hands_def hands_frame_def hands_person_def hands_init_def try_block_def
        recover_def append_recovered_def pad_frame_def append_slot_def g1 g2 g3 g4 s1 sublist_code)
qed

subsection \<open>Lengths of the slot sequences\<close>

text \<open>
  When \<^verbatim>\<open>get_face\<close> or \<^verbatim>\<open>get_body\<close> returns, the planar and the depth sequence of
  a slot have the same length. Slot 0 has one element per retained frame; slot 1 has one
  element per retained frame that holds at least one valid person entry.
\<close>

lemma store_person_lengths:
  assumes "store_person n ident lm (seq2, seq3, i) = Inr (seq2', seq3', i')" and "ident \<noteq> - 1"
  shows "i' = i + 1 \<and> i < 2
       \<and> length (fst seq2') = length (fst seq2) + (if i = 0 then 1 else 0)
       \<and> length (snd seq2') = length (snd seq2) + (if i = 1 then 1 else 0)
       \<and> length (fst seq3') = length (fst seq3) + (if i = 0 then 1 else 0)
       \<and> length (snd seq3') = length (snd seq3) + (if i = 1 then 1 else 0)"
  using assms
  by (auto simp: store_person_def append_slot_def split: prod.splits if_splits sum.splits)

lemma pad_frame_lengths:
  assumes "pad_frame z2 z3 (seq2, seq3, i) = Inr (seq2', seq3')"
  shows "length (fst seq2') = length (fst seq2) + (if i = 0 then 1 else 0)
       \<and> length (snd seq2') = length (snd seq2) + (if i = 1 then 1 else 0)
       \<and> length (fst seq3') = length (fst seq3) + (if i = 0 then 1 else 0)
       \<and> length (snd seq3') = length (snd seq3) + (if i = 1 then 1 else 0)"
  using assms
  by (auto simp: pad_frame_def append_slot_def split: if_splits)

lemma valid_entries_lengths:
  assumes "\<forall>p \<in> set valid. idf p \<noteq> - 1"
    and "for_each (\<lambda>p. store_person n (idf p) (lmf p)) valid (seq2, seq3, i) = Inr (seq2', seq3', i')"
  shows "i' = i + length valid
       \<and> length (fst seq2') = length (fst seq2) + (if i = 0 \<and> 0 < i' then 1 else 0)
       \<and> length (snd seq2') = length (snd seq2) + (if i \<le> 1 \<and> 1 < i' then 1 else 0)
       \<and> length (fst seq3') = length (fst seq3) + (if i = 0 \<and> 0 < i' then 1 else 0)
       \<and> length (snd seq3') = length (snd seq3) + (if i \<le> 1 \<and> 1 < i' then 1 else 0)"
  using assms
proof (induction valid arbitrary: seq2 seq3 i)
  case Nil
  then show ?case by auto
next
  case (Cons p ps)
  from Cons.prems(1) have idp: "idf p \<noteq> - 1" and ids: "\<forall>p \<in> set ps. idf p \<noteq> - 1" by simp_all
  from Cons.prems(2) obtain s2 s3 j
    where first: "store_person n (idf p) (lmf p) (seq2, seq3, i) = Inr (s2, s3, j)"
      and rest: "for_each (\<lambda>p. store_person n (idf p) (lmf p)) ps (s2, s3, j) = Inr (seq2', seq3', i')"
    by (auto split: sum.splits)
  note a = store_person_lengths [OF first idp]
  note b = Cons.IH [OF ids rest]
  from a b show ?case by (auto split: if_splits)
qed

lemma frame_lengths:
  assumes "(case for_each (\<lambda>p. store_person n (idf p) (lmf p)) people (seq2, seq3, 0) of
              Inl e \<Rightarrow> Inl e | Inr st \<Rightarrow> pad_frame z2 z3 st) = Inr (seq2', seq3')"
  shows "length (fst seq2') = length (fst seq2) + 1 \<and> length (fst seq3') = length (fst seq3) + 1
       \<and> length (snd seq2') = length (snd seq2) + (if \<exists>p \<in> set people. idf p \<noteq> - 1 then 1 else 0)
       \<and> length (snd seq3') = length (snd seq3) + (if \<exists>p \<in> set people. idf p \<noteq> - 1 then 1 else 0)"
proof -
  define valid where "valid = filter (\<lambda>p. idf p \<noteq> - 1) people"
  have ids: "\<forall>p \<in> set valid. idf p \<noteq> - 1" by (simp add: valid_def)
  have any: "(\<exists>p \<in> set people. idf p \<noteq> - 1) = (0 < length valid)"
    by (simp add: valid_def filter_empty_conv)
  from assms obtain s2 s3 j
    where loop: "for_each (\<lambda>p. store_person n (idf p) (lmf p)) valid (seq2, seq3, 0) = Inr (s2, s3, j)"
      and pad: "pad_frame z2 z3 (s2, s3, j) = Inr (seq2', seq3')"
    unfolding valid_def for_each_skips_invalid [of n idf lmf people, symmetric]
    by (auto split: sum.splits)
  note a = valid_entries_lengths [OF ids loop]
  note b = pad_frame_lengths [OF pad]
  from a b show ?thesis unfolding any by (cases valid) (auto split: if_splits)
qed

lemma frames_lengths:
  assumes "\<And>people seqs. frame people seqs
             = (case for_each (\<lambda>p. store_person n (idf p) (lmf p)) people (fst seqs, snd seqs, 0) of
                  Inl e \<Rightarrow> Inl e | Inr st \<Rightarrow> pad_frame z2 z3 st)"
    and "for_each frame frames (seq2, seq3) = Inr (seq2', seq3')"
  shows "length (fst seq2') = length (fst seq2) + length frames
       \<and> length (fst seq3') = length (fst seq3) + length frames
       \<and> length (snd seq2') = length (snd seq2)
            + length (filter (\<lambda>people. \<exists>p \<in> set people. idf p \<noteq> - 1) frames)
       \<and> length (snd seq3') = length (snd seq3)
            + length (filter (\<lambda>people. \<exists>p \<in> set people. idf p \<noteq> - 1) frames)"
  using assms(2)
proof (induction frames arbitrary: seq2 seq3)
  case Nil
  then show ?case by simp
next
  case (Cons people frames)
  from Cons.prems obtain s2 s3
    where first: "frame people (seq2, seq3) = Inr (s2, s3)"
      and rest: "for_each frame frames (s2, s3) = Inr (seq2', seq3')"
    by (auto split: sum.splits)
  from first have "(case for_each (\<lambda>p. store_person n (idf p) (lmf p)) people (seq2, seq3, 0) of
                  Inl e \<Rightarrow> Inl e | Inr st \<Rightarrow> pad_frame z2 z3 st) = Inr (s2, s3)"
    by (simp add: assms(1))
  note a = frame_lengths [OF this]
  note b = Cons.IH [OF rest]
  from a b show ?case by (auto split: if_splits)
qed

lemma slot_sequence_lengths:
  "get_face files = Inr ((f0, f1), (g0, g1))
     \<Longrightarrow> length f0 = length (drop 1 files) \<and> length g0 = length f0
       \<and> length f1 = length (filter (\<lambda>people. \<exists>p \<in> set people. face_id p \<noteq> - 1) (drop 1 files))
       \<and> length g1 = length f1"
  "get_body files' = Inr ((b0, b1), (c0, c1))
     \<Longrightarrow> length b0 = length (butlast files') \<and> length c0 = length b0
       \<and> length b1 = length (filter (\<lambda>bodies. \<exists>p \<in> set bodies. body_id p \<noteq> - 1) (butlast files'))
       \<and> length c1 = length b1"
  using frames_lengths [where frame = face_frame and n = 3 and idf = face_id
      and lmf = face70_landmarks and ?z2.0 = "zeros 140" and ?z3.0 = "zeros 70"
      and frames = "drop 1 files" and ?seq2.0 = "([], [])" and ?seq3.0 = "([], [])"
      and seq2' = "(f0, f1)" and seq3' = "(g0, g1)"]
    frames_lengths [where frame = body_frame and n = 4 and idf = body_id
      and lmf = joints26 and ?z2.0 = "zeros 52" and ?z3.0 = "zeros 26"
      and frames = "butlast files'" and ?seq2.0 = "([], [])" and ?seq3.0 = "([], [])"
      and seq2' = "(b0, b1)" and seq3' = "(c0, c1)"]
  by (simp_all add: get_face_def get_body_def face_frame_def body_frame_def)

text \<open>
  Claim C3. The planar and the depth sequence of a slot should have the same length, the
  number of retained frame files. The first half holds whenever the extractor returns, and
  slot 0 has that length; slot 1 does not: a retained frame without a valid entry adds
  nothing to it. On a hands recording of four files whose two retained frames hold no
  person, slot 0 has two elements and slot 1 has none.
\<close>

theorem slot_1_shorter_than_retained_frames:
  "get_hands [[], [], [], []]
     = Inr (([Flat (zeros 84), Flat (zeros 84)], []), ([Flat (zeros 42), Flat (zeros 42)], []))
   \<and> length (drop 1 (butlast [[], [], [], []::hand_person list])) = 2
   \<and> length ([]::hval list) \<noteq> 2"
  by (simp add: extractor_defs)

subsection \<open>Person entries with a missing hand\<close>

text \<open>
  A valid person entry without \<^verbatim>\<open>left_hand\<close> whose right hand has 63 floats gets
  \<open>zeros(42) ++ planar(right)\<close> and \<open>zeros(21) ++ depth(right)\<close>; one without
  \<^verbatim>\<open>right_hand\<close> gets \<open>planar(left) ++ zeros(42)\<close> and \<open>depth(left) ++ zeros(21)\<close>.
\<close>

lemma xy_values_missing_hand:
  assumes "landmarks rng person = Inr r" and "r \<noteq> []" and "landmarks hand person = Inl e"
  shows "xy_values hand rng person = Inl e"
proof -
  have "0 \<in> set (filter (\<lambda>c. (c + 1) mod 3 \<noteq> 0) [0 ..< length r])"
    using assms(2) by simp
  then have "filter (\<lambda>c. (c + 1) mod 3 \<noteq> 0) [0 ..< length r] \<noteq> []"
    by (metis empty_iff list.set(1))
  then show ?thesis
    using assms(1,3) by (simp add: xy_values_def Let_def)
qed

lemma left_hand_missing_substitutes_zeros:
  assumes "hand_id person \<noteq> - 1" and "i < 2"
    and "left_hand person = None" and "right_hand person = Some r" and "length r = 63"
  shows "\<exists>pr zr st'.
           hands_person person (st, i) = Inr (st', i + 1)
         \<and> append_slot i (Flat (zeros 42 @ pr)) (hand_2D_seq st) = Inr (hand_2D_seq st')
         \<and> append_slot i (Flat (zeros 21 @ zr)) (hand_3D_seq st) = Inr (hand_3D_seq st')
         \<and> length pr = 42 \<and> length zr = 21
         \<and> (\<forall>j<21. pr ! (2 * j) = r ! (3 * j) \<and> pr ! (2 * j + 1) = r ! (3 * j + 1)
                     \<and> zr ! j = r ! (3 * j + 2))"
proof -
  have L: "landmarks ''left_hand'' person = Inl (KeyError ''left_hand'')"
    and R: "landmarks ''right_hand'' person = Inr r"
    using assms(3,4) by (simp_all add: landmarks_def)
  have r: "r \<noteq> []" "length r = 3 * 21" using assms(5) by auto
  have "xy_values ''left_hand'' ''right_hand'' person = Inl (KeyError ''left_hand'')"
    using xy_values_missing_hand [OF R r(1) L] .
  then have tb: "try_block person i st = Inl (KeyError ''left_hand'', st)"
    by (simp add: try_block_def)
  obtain pr where pr: "xy_values ''right_hand'' ''right_hand'' person = Inr pr" "length pr = 2 * 21"
      "\<forall>j<21. pr ! (2 * j) = r ! (3 * j) \<and> pr ! (2 * j + 1) = r ! (3 * j + 1)"
    using xy_values_joints [OF R R r(2) r(2)] by blast
  let ?zr = "slice_step 2 3 r"
  have zr: "z_values ''right_hand'' person = Inr ?zr" using R by (simp add: z_values_def)
  have zrn: "length ?zr = 21 \<and> (\<forall>j<21. ?zr ! j = r ! (3 * j + 2))"
    using slice_step_joints [of 2 3 r 21] r(2) by simp
  let ?st1 = "st\<lparr>hands := Some (Flat (zeros 42 @ pr)), hands_3d := Some (Flat (zeros 21 @ ?zr))\<rparr>"
  have rec: "recover (KeyError ''left_hand'') person st = Inr ?st1"
    using pr(1) zr by (simp add: recover_def sublist_code)
  obtain seq2 where s2: "append_slot i (Flat (zeros 42 @ pr)) (hand_2D_seq st) = Inr seq2"
    using append_slot_ok [OF assms(2), of "Flat (zeros 42 @ pr)" "hand_2D_seq st"] by blast
  obtain seq3 where s3: "append_slot i (Flat (zeros 21 @ ?zr)) (hand_3D_seq st) = Inr seq3"
    using append_slot_ok [OF assms(2), of "Flat (zeros 21 @ ?zr)" "hand_3D_seq st"] by blast
  let ?st' = "?st1\<lparr>hand_2D_seq := seq2, hand_3D_seq := seq3\<rparr>"
  have "append_recovered i ?st1 = Inr ?st'"
    using assms(2) s2 s3 by (simp add: append_recovered_def)
  then have "hands_person person (st, i) = Inr (?st', i + 1)"
    using assms(1) tb rec by (simp add: hands_person_def)
  moreover have "hand_2D_seq ?st' = seq2" "hand_3D_seq ?st' = seq3" by simp_all
  ultimately show ?thesis
    using pr(2,3) zrn s2 s3 by (metis (no_types, lifting) mult_2 numeral_Bit0)
qed

lemma right_hand_missing_substitutes_zeros:
  assumes "hand_id person \<noteq> - 1" and "i < 2"
    and "left_hand person = Some l" and "right_hand person = None" and "length l = 63"
  shows "\<exists>pl zl st'.
           hands_person person (st, i) = Inr (st', i + 1)
         \<and> append_slot i (Flat (pl @ zeros 42)) (hand_2D_seq st) = Inr (hand_2D_seq st')
         \<and> append_slot i (Flat (zl @ zeros 21)) (hand_3D_seq st) = Inr (hand_3D_seq st')
         \<and> length pl = 42 \<and> length zl = 21
         \<and> (\<forall>j<21. pl ! (2 * j) = l ! (3 * j) \<and> pl ! (2 * j + 1) = l ! (3 * j + 1)
                     \<and> zl ! j = l ! (3 * j + 2))"
proof -
  have L: "landmarks ''left_hand'' person = Inr l"
    and R: "landmarks ''right_hand'' person = Inl (KeyError ''right_hand'')"
    using assms(3,4) by (simp_all add: landmarks_def)
  have l: "length l = 3 * 21" using assms(5) by simp
  have "xy_values ''left_hand'' ''right_hand'' person = Inl (KeyError ''right_hand'')"
    using R by (simp add: xy_values_def)
  then have tb: "try_block person i st = Inl (KeyError ''right_hand'', st)"
    by (simp add: try_block_def)
  obtain pl where pl: "xy_values ''left_hand'' ''left_hand'' person = Inr pl" "length pl = 2 * 21"
      "\<forall>j<21. pl ! (2 * j) = l ! (3 * j) \<and> pl ! (2 * j + 1) = l ! (3 * j + 1)"
    using xy_values_joints [OF L L l l] by blast
  let ?zl = "slice_step 2 3 l"
  have zl: "z_values ''left_hand'' person = Inr ?zl" using L by (simp add: z_values_def)
  have zln: "length ?zl = 21 \<and> (\<forall>j<21. ?zl ! j = l ! (3 * j + 2))"
    using slice_step_joints [of 2 3 l 21] l by simp
  let ?st1 = "st\<lparr>hands := Some (Flat (pl @ zeros 42)), hands_3d := Some (Flat (?zl @ zeros 21))\<rparr>"
  have rec: "recover (KeyError ''right_hand'') person st = Inr ?st1"
    using pl(1) zl by (simp add: recover_def sublist_code)
  obtain seq2 where s2: "append_slot i (Flat (pl @ zeros 42)) (hand_2D_seq st) = Inr seq2"
    using append_slot_ok [OF assms(2), of "Flat (pl @ zeros 42)" "hand_2D_seq st"] by blast
  obtain seq3 where s3: "append_slot i (Flat (?zl @ zeros 21)) (hand_3D_seq st) = Inr seq3"
    using append_slot_ok [OF assms(2), of "Flat (?zl @ zeros 21)" "hand_3D_seq st"] by blast
  let ?st' = "?st1\<lparr>hand_2D_seq := seq2, hand_3D_seq := seq3\<rparr>"
  have "append_recovered i ?st1 = Inr ?st'"
    using assms(2) s2 s3 by (simp add: append_recovered_def)
  then have "hands_person person (st, i) = Inr (?st', i + 1)"
    using assms(1) tb rec by (simp add: hands_person_def)
  moreover have "hand_2D_seq ?st' = seq2" "hand_3D_seq ?st' = seq3" by simp_all
  ultimately show ?thesis
    using pl(2,3) zln s2 s3 by (metis (no_types, lifting) mult_2 numeral_Bit0)
qed

text \<open>
  Claim C4. A valid person entry with neither \<^verbatim>\<open>left_hand\<close> nor \<^verbatim>\<open>right_hand\<close>
  should contribute zero vectors of width 84 and 42. The first exception raised is
  \<^verbatim>\<open>KeyError('right_hand')\<close>, which selects the second recovery branch; that branch
  reads \<^verbatim>\<open>person['left_hand']\<close> outside any \<^verbatim>\<open>try\<close>, and the extractor ends
  with \<^verbatim>\<open>KeyError('left_hand')\<close>.
\<close>

theorem both_hands_missing_raises:
  "get_hands [[], [\<lparr>hand_id = 0, left_hand = None, right_hand = None\<rparr>], []]
     = Inl (KeyError ''left_hand'')"
  by (simp add: extractor_defs try_block_def recover_def xy_values_def landmarks_def sublist_code)

section \<open>Properties of the padder\<close>

lemma append_nans_nonempty:
  "seq \<noteq> [] \<Longrightarrow> append_nans k seq = Inr (seq @ replicate k (replicate (length (seq ! 0)) NaN))"
proof (induction k arbitrary: seq)
  case 0
  then show ?case by simp
next
  case (Suc k)
  then obtain v vs where seq: "seq = v # vs" by (cases seq) auto
  have "append_nans (Suc k) seq = append_nans k (seq @ [replicate (length v) NaN])"
    by (simp add: seq)
  also have "\<dots> = Inr ((seq @ [replicate (length v) NaN]) @ replicate k (replicate (length v) NaN))"
    using Suc.IH [of "seq @ [replicate (length v) NaN]"] by (simp add: seq)
  also have "\<dots> = Inr (seq @ replicate (Suc k) (replicate (length (seq ! 0)) NaN))"
    by (simp add: seq)
  finally show ?case .
qed

lemma pad_each_nonempty:
  "\<forall>seq \<in> set dataset. seq \<noteq> []
     \<Longrightarrow> pad_each m dataset
           = Inr (map (\<lambda>seq. seq @ replicate (m - length seq) (replicate (length (seq ! 0)) NaN)) dataset)"
  by (induction dataset) (simp_all add: append_nans_nonempty)

lemma two_elements: "length xs = 2 \<Longrightarrow> xs = [xs ! 0, xs ! 1]"
  by (auto simp: length_Suc_conv numeral_2_eq_2)

lemma length_le_Max: "k < length dataset \<Longrightarrow> length (dataset ! k) \<le> Max (set (map length dataset))"
  by (intro Max_ge) auto

text \<open>
  Claim C6, as amended. For a non-empty collection of non-empty sequences both padders
  compute \<open>L\<close>, the maximum sequence length, append exactly \<open>L - len(s)\<close> elements to the
  end of every sequence \<open>s\<close> and leave what was there unchanged, so that every sequence
  has length \<open>L\<close>, and return \<open>L\<close>. The padder of the full-keypoint notebooks appends
  vectors of NaN as wide as the first element of the sequence. The padder of the
  single-keypoint notebook appends the scalar NaN to label sequences and the vector
  \<^verbatim>\<open>[0., 0.]\<close> to input sequences.
\<close>

theorem padder_appends_to_max_length:
  assumes "dataset \<noteq> []" and "\<forall>seq \<in> set dataset. seq \<noteq> []" and "kp \<noteq> []"
  shows "(\<exists>padded. padding_seq dataset = Inr (padded, Max (set (map length dataset)))
            \<and> length padded = length dataset
            \<and> (\<forall>k < length dataset.
                  padded ! k = dataset ! k
                     @ replicate (Max (set (map length dataset)) - length (dataset ! k))
                                 (replicate (length (dataset ! k ! 0)) NaN)
                \<and> length (padded ! k) = Max (set (map length dataset))))
       \<and> (\<exists>padded. padding_seq_kp kp labels = Inr (padded, Max (set (map length kp)))
            \<and> length padded = length kp
            \<and> (\<forall>k < length kp.
                  padded ! k = kp ! k
                     @ replicate (Max (set (map length kp)) - length (kp ! k))
                                 (if labels then Scalar NaN else Vector [Fin 0, Fin 0])
                \<and> length (padded ! k) = Max (set (map length kp))))"
proof (intro conjI)
  let ?L = "Max (set (map length dataset))"
  let ?padded = "map (\<lambda>seq. seq @ replicate (?L - length seq) (replicate (length (seq ! 0)) NaN)) dataset"
  have "padding_seq dataset = Inr (?padded, ?L)"
    using assms(1) pad_each_nonempty [OF assms(2), of ?L] by (simp add: padding_seq_def)
  moreover have "length (?padded ! k) = ?L" if "k < length dataset" for k
    using that length_le_Max [OF that] by simp
  ultimately show "\<exists>padded. padding_seq dataset = Inr (padded, ?L)
            \<and> length padded = length dataset
            \<and> (\<forall>k < length dataset.
                  padded ! k = dataset ! k
                     @ replicate (?L - length (dataset ! k)) (replicate (length (dataset ! k ! 0)) NaN)
                \<and> length (padded ! k) = ?L)"
    by (intro exI [of _ ?padded]) simp
next
  let ?L = "Max (set (map length kp))"
  let ?v = "if labels then Scalar NaN else Vector [Fin 0, Fin 0]"
  let ?padded = "map (\<lambda>seq. seq @ replicate (?L - length seq) ?v) kp"
  have "padding_seq_kp kp labels = Inr (?padded, ?L)"
    using assms(3) by (simp add: padding_seq_kp_def)
  moreover have "length (?padded ! k) = ?L" if "k < length kp" for k
    using that length_le_Max [OF that] by simp
  ultimately show "\<exists>padded. padding_seq_kp kp labels = Inr (padded, ?L)
            \<and> length padded = length kp
            \<and> (\<forall>k < length kp.
                  padded ! k = kp ! k @ replicate (?L - length (kp ! k)) ?v
                \<and> length (padded ! k) = ?L)"
    by (intro exI [of _ ?padded]) simp
qed

theorem padder_appends_to_max_length_witness:
  "[[[Fin 1, Fin 2]], [[Fin 3, Fin 4], [Fin 5, Fin 6]]] \<noteq> []
   \<and> [[Fin 1, Fin 2]] \<noteq> [] \<and> [[Fin 3, Fin 4], [Fin 5, Fin 6]] \<noteq> []
   \<and> [[Scalar (Fin 1)], [Scalar (Fin 2), Scalar (Fin 3)]] \<noteq> []
   \<and> padding_seq [[[Fin 1, Fin 2]], [[Fin 3, Fin 4], [Fin 5, Fin 6]]]
       = Inr ([[[Fin 1, Fin 2], [NaN, NaN]], [[Fin 3, Fin 4], [Fin 5, Fin 6]]], 2)
   \<and> padding_seq_kp [[Scalar (Fin 1)], [Scalar (Fin 2), Scalar (Fin 3)]] True
       = Inr ([[Scalar (Fin 1), Scalar NaN], [Scalar (Fin 2), Scalar (Fin 3)]], 2)"
proof -
  let ?ds = "[[[Fin 1, Fin 2]], [[Fin 3, Fin 4], [Fin 5, Fin 6]]]"
  let ?kp = "[[Scalar (Fin 1)], [Scalar (Fin 2), Scalar (Fin 3)]]"
  have a: "?ds \<noteq> []" "\<forall>seq \<in> set ?ds. seq \<noteq> []" "?kp \<noteq> []" by simp_all
  have m: "Max (set (map length ?ds)) = 2" "Max (set (map length ?kp)) = 2" by simp_all
  from padder_appends_to_max_length [OF a, of True]
  obtain p1 p2 where p1: "padding_seq ?ds = Inr (p1, 2)" "length p1 = 2"
      "\<forall>k<2. p1 ! k = ?ds ! k @ replicate (2 - length (?ds ! k)) (replicate (length (?ds ! k ! 0)) NaN)"
    and p2: "padding_seq_kp ?kp True = Inr (p2, 2)" "length p2 = 2"
      "\<forall>k<2. p2 ! k = ?kp ! k @ replicate (2 - length (?kp ! k)) (Scalar NaN)"
    unfolding m by auto
  have "p1 ! 0 = [[Fin 1, Fin 2], [NaN, NaN]]" "p1 ! 1 = [[Fin 3, Fin 4], [Fin 5, Fin 6]]"
    using p1(3) [rule_format, of 0] p1(3) [rule_format, of 1] by simp_all
  then have "p1 = [[[Fin 1, Fin 2], [NaN, NaN]], [[Fin 3, Fin 4], [Fin 5, Fin 6]]]"
    using two_elements [OF p1(2)] by simp
  moreover have "p2 ! 0 = [Scalar (Fin 1), Scalar NaN]" "p2 ! 1 = [Scalar (Fin 2), Scalar (Fin 3)]"
    using p2(3) [rule_format, of 0] p2(3) [rule_format, of 1] by simp_all
  then have "p2 = [[Scalar (Fin 1), Scalar NaN], [Scalar (Fin 2), Scalar (Fin 3)]]"
    using two_elements [OF p2(2)] by simp
  ultimately show ?thesis using p1(1) p2(1) a by simp
qed

text \<open>
  Claim C6 as stated fails for the inputs of the single-keypoint notebook: the element
  appended beyond the original length is \<^verbatim>\<open>[0., 0.]\<close>, not the missing-value marker.
\<close>

theorem input_padding_counterexample:
  "padding_seq_kp [[Vector [Fin 1, Fin 2]], [Vector [Fin 3, Fin 4], Vector [Fin 5, Fin 6]]] False
     = Inr ([[Vector [Fin 1, Fin 2], Vector [Fin 0, Fin 0]],
             [Vector [Fin 3, Fin 4], Vector [Fin 5, Fin 6]]], 2)
   \<and> Vector [Fin 0, Fin 0] \<noteq> Vector [NaN, NaN]"
  by (simp add: padding_seq_kp_def)

section \<open>Properties of the normalizer\<close>












subsection \<open>Sums, means and deviations of finite values\<close>
























text \<open>
  The entries the theorem leaves out are the ones that normalization itself turns into
  NaN: those of a sub-channel without any value, and those of a sub-channel whose values
  are all equal, where the standard deviation is 0 and \<open>0/0\<close> is NaN.
\<close>

lemma constant_channel_becomes_missing:
  "normalize_tensor [[[Fin 5], [Fin 5]]] 1 = ([[[NaN], [NaN]]], [(Fin 5, Fin 0)])"
  by (simp add: normalize_tensor_def assign_sub_def sub_channel_def slice_step_def
      nanmean_def nanstd_def fsum_def fsub_def)

section \<open>Properties of the partitioner\<close>

lemma round_half_even_cases:
  "round_half_even p d = p div d \<and> 2 * (p mod d) \<le> d
   \<or> round_half_even p d = p div d + 1 \<and> d \<le> 2 * (p mod d)"
proof -
  consider "2 * (p mod d) < d" | "d < 2 * (p mod d)" | "2 * (p mod d) = d" by linarith
  then show ?thesis
  proof cases
    case 1
    then show ?thesis by (simp add: round_half_even_def Let_def)
  next
    case 2
    then show ?thesis by (simp add: round_half_even_def Let_def)
  next
    case 3
    then show ?thesis by (simp add: round_half_even_def Let_def)
  qed
qed

lemma round_half_even_bounds:
  assumes "0 < d"
  shows "2 * (round_half_even p d * d) \<le> 2 * p + d \<and> 2 * p \<le> 2 * (round_half_even p d * d) + d"
proof -
  define q where "q = p div d"
  define r where "r = p mod d"
  define qd where "qd = q * d"
  have p: "p = qd + r" by (simp add: q_def r_def qd_def)
  have r: "r < d" using assms by (simp add: r_def)
  from round_half_even_cases [of p d]
  have "round_half_even p d * d = qd \<and> 2 * r \<le> d \<or> round_half_even p d * d = qd + d \<and> d \<le> 2 * r"
    by (auto simp: q_def r_def qd_def add_mult_distrib)
  then show ?thesis
    using p r by linarith
qed

lemma round_half_even_exact: "round_half_even p (Suc 0) = p"
  by (simp add: round_half_even_def)

lemma float_mul_bounds:
  "2 ^ 53 * float_mul m n \<le> (2 ^ 53 + 1) * (m * n)
   \<and> (2 ^ 53 - 1) * (m * n) \<le> 2 ^ 53 * float_mul m n"
proof -
  define p where "p = m * n"
  define s where "s = floorlog 2 p - 53"
  define D where "D = (2::nat) ^ s"
  define R where "R = round_half_even p D * D"
  have fm: "float_mul m n = R"
    by (simp add: float_mul_def Let_def p_def s_def R_def D_def)
  have "2 ^ 53 * R \<le> (2 ^ 53 + 1) * p \<and> (2 ^ 53 - 1) * p \<le> 2 ^ 53 * R"
  proof (cases "s = 0")
    case True
    then have "R = p" by (simp add: R_def D_def round_half_even_exact)
    then show ?thesis by simp
  next
    case False
    then have fl: "floorlog 2 p = s + 53" by (simp add: s_def)
    then have "0 < p" by (cases "p = 0") (simp_all add: floorlog_def)
    from floorlog_bounds [OF this, of 2] have "(2::nat) ^ (floorlog 2 p - 1) \<le> p" by simp
    moreover have "floorlog 2 p - 1 = 52 + s" using fl by simp
    ultimately have "(2::nat) ^ (52 + s) \<le> p" by simp
    then have small: "2 ^ 52 * D \<le> p" by (simp only: power_add D_def)
    have "0 < D" by (simp add: D_def)
    from round_half_even_bounds [OF this, of p]
    have b: "2 * R \<le> 2 * p + D" "2 * p \<le> 2 * R + D" by (simp_all add: R_def)
    have e: "(2::nat) ^ 53 = 9007199254740992" "(2::nat) ^ 52 = 4503599627370496" by simp_all
    have "9007199254740992 * R \<le> 9007199254740993 * p
        \<and> 9007199254740991 * p \<le> 9007199254740992 * R"
      using b small unfolding e by linarith
    then show ?thesis by simp
  qed
  with fm show ?thesis by (simp only: p_def)
qed

lemma py_round_zero: "py_round (float_mul m 0) = 0"
  by (simp add: py_round_def float_mul_def round_half_even_def)

lemma split_bounds:
  "py_round (float_mul lit_067 n) \<le> py_round (float_mul lit_085 n)
   \<and> py_round (float_mul lit_085 n) \<le> n"
proof -
  define xa where "xa = float_mul lit_067 n"
  define xb where "xb = float_mul lit_085 n"
  define a where "a = py_round xa"
  define b where "b = py_round xb"
  define A where "A = a * 9007199254740992"
  define B where "B = b * 9007199254740992"
  define N where "N = n * 9007199254740992"
  have e: "(2::nat) ^ 53 = 9007199254740992" by simp
  have pos: "(0::nat) < 9007199254740992" by simp
  have ra: "2 * A \<le> 2 * xa + 9007199254740992"
    using round_half_even_bounds [OF pos, of xa] by (simp add: a_def A_def py_round_def)
  have rb: "2 * B \<le> 2 * xb + 9007199254740992" "2 * xb \<le> 2 * B + 9007199254740992"
    using round_half_even_bounds [OF pos, of xb] by (simp_all add: b_def B_def py_round_def)
  have fa: "9007199254740992 * xa \<le> 9007199254740993 * (6034823500676465 * n)"
    using float_mul_bounds [of lit_067 n] by (simp add: xa_def lit_067_def)
  have fb: "9007199254740992 * xb \<le> 9007199254740993 * (7656119366529843 * n)"
      "9007199254740991 * (7656119366529843 * n) \<le> 9007199254740992 * xb"
    using float_mul_bounds [of lit_085 n] by (simp_all add: xb_def lit_085_def)
  have "a \<le> b"
  proof (rule ccontr)
    assume "\<not> a \<le> b"
    then have ba: "b + 1 \<le> a" by simp
    then have "(b + 1) * 9007199254740992 \<le> a * 9007199254740992" by (rule mult_le_mono1)
    then have "B + 9007199254740992 \<le> A" by (simp add: A_def B_def)
    with ra rb(2) have "xb \<le> xa" by linarith
    with fa fb(2) have "n = 0" by linarith
    then have "a = 0" by (simp add: a_def xa_def py_round_zero)
    with ba show False by simp
  qed
  moreover have "b \<le> n"
  proof (rule ccontr)
    assume "\<not> b \<le> n"
    then have "n + 1 \<le> b" by simp
    then have "(n + 1) * 9007199254740992 \<le> b * 9007199254740992" by (rule mult_le_mono1)
    then have "N + 9007199254740992 \<le> B" by (simp add: N_def B_def)
    with rb(1) have "2 * N + 9007199254740992 \<le> 2 * xb" by linarith
    then have "9007199254740992 * (2 * N + 9007199254740992) \<le> 9007199254740992 * (2 * xb)"
      by (rule mult_le_mono2)
    then have "162259276829213363391578010288128 * n + 81129638414606681695789005144064
        \<le> 18014398509481984 * xb"
      by (simp add: N_def)
    moreover from fb(1) have "18014398509481984 * xb \<le> 137920385304831370592200339908198 * n"
      by simp
    ultimately show False by linarith
  qed
  ultimately show ?thesis by (simp add: a_def b_def xa_def xb_def)
qed

lemma floorlog_20:
  "floorlog 2 120696470013529300 = 57" "floorlog 2 153122387330596860 = 58"
  by (simp_all add: compute_floorlog)

lemma float_mul_20:
  "float_mul lit_067 20 = 120696470013529296" "float_mul lit_085 20 = 153122387330596864"
  by (simp_all add: float_mul_def round_half_even_def lit_067_def lit_085_def floorlog_20)

lemma boundaries_20:
  "py_round (float_mul lit_067 20) = 13" "py_round (float_mul lit_085 20) = 17"
  by (simp_all add: float_mul_20 py_round_def round_half_even_def)

text \<open>
  The two literals are the doubles nearest to \<open>67/100\<close> and \<open>85/100\<close>: significands of 53
  bits, at most half a unit in the last place away.
\<close>

lemma literals_are_nearest_doubles:
  "2 ^ 52 \<le> lit_067 \<and> lit_067 < 2 ^ 53 \<and> 2 * (100 * lit_067 - 67 * 2 ^ 53) \<le> 100
   \<and> 2 ^ 52 \<le> lit_085 \<and> lit_085 < 2 ^ 53 \<and> 2 * (85 * 2 ^ 53 - 100 * lit_085) \<le> 100
   \<and> 67 * 2 ^ 53 \<le> 100 * lit_067 \<and> 100 * lit_085 \<le> 85 * 2 ^ 53"
  by (simp add: lit_067_def lit_085_def)

text \<open>
  The rounding of the product matters: \<open>0.67 * 750\<close> is \<open>502.5\<close> in decimal, which would
  round to the even 502, but the double product is just above and \<^verbatim>\<open>round\<close> gives 503.
\<close>

lemma boundary_750: "py_round (float_mul lit_067 750) = 503"
proof -
  have "floorlog 2 4526117625507348750 = 62" by (simp add: compute_floorlog)
  then have "float_mul lit_067 750 = 4526117625507348992"
    by (simp add: float_mul_def round_half_even_def lit_067_def)
  then show ?thesis by (simp add: py_round_def round_half_even_def)
qed

text \<open>
  Claim C9. For a dataset of \<open>N\<close> slots the three parts are the slices
  \<open>[0, a)\<close>, \<open>[a, b)\<close> and \<open>[b, N)\<close> with \<open>a = round(0.67*N)\<close> and \<open>b = round(0.85*N)\<close>,
  computed on doubles as Python does. Since \<open>a \<le> b \<le> N\<close>, their concatenation in this
  order is the dataset: contiguous, without overlap, in the original order, every slot
  once. For \<open>N = 20\<close> the boundaries are 13, 17 and 20.
\<close>

theorem split_covers_dataset_in_order:
  "(case split_dataset dataset of
      (training, val, test) \<Rightarrow>
        training @ val @ test = dataset
      \<and> training = take (py_round (float_mul lit_067 (length dataset))) dataset
      \<and> val = drop (py_round (float_mul lit_067 (length dataset)))
                 (take (py_round (float_mul lit_085 (length dataset))) dataset)
      \<and> test = drop (py_round (float_mul lit_085 (length dataset))) dataset
      \<and> length training = py_round (float_mul lit_067 (length dataset))
      \<and> length training + length val = py_round (float_mul lit_085 (length dataset))
      \<and> length training + length val + length test = length dataset)
   \<and> py_round (float_mul lit_067 20) = 13 \<and> py_round (float_mul lit_085 20) = 17
   \<and> split_dataset [0 ..< 20] = ([0 ..< 13], [13 ..< 17], [17 ..< 20])"
proof -
  define a where "a = py_round (float_mul lit_067 (length dataset))"
  define b where "b = py_round (float_mul lit_085 (length dataset))"
  have ab: "a \<le> b" "b \<le> length dataset"
    using split_bounds [of "length dataset"] by (simp_all add: a_def b_def)
  have "take a (take b dataset) = take a dataset"
    using ab(1) by (simp add: min_def)
  then have "take a dataset @ drop a (take b dataset) = take b dataset"
    using append_take_drop_id [of a "take b dataset"] by simp
  then have "(take a dataset @ drop a (take b dataset)) @ drop b dataset
      = take b dataset @ drop b dataset"
    by (simp only:)
  then have cover: "take a dataset @ drop a (take b dataset) @ drop b dataset = dataset"
    by (simp only: append_take_drop_id append_assoc)
  have lens: "length (take a dataset) = a"
      "length (take a dataset) + length (drop a (take b dataset)) = b"
      "length (take a dataset) + length (drop a (take b dataset)) + length (drop b dataset)
         = length dataset"
    using ab by simp_all
  have sd: "split_dataset dataset = (take a dataset, drop a (take b dataset), drop b dataset)"
    by (simp add: split_dataset_def Let_def a_def b_def)
  have "length [0 ..< 20] = 20" by simp
  then have "split_dataset [0 ..< 20] = ([0 ..< 13], [13 ..< 17], [17 ..< 20])"
    by (simp add: split_dataset_def Let_def boundaries_20 take_upt drop_upt)
  with cover lens show ?thesis
    unfolding sd a_def [symmetric] b_def [symmetric] by (simp add: boundaries_20)
qed

end
